theory Spec2Isabelle
  imports Main "HOL-Library.AList" "HOL-Library.Sublist" "HOL-Library.Multiset"
begin

section \<open>Callable errors, requests and responses\<close>

text \<open>
  The Cloud Functions of \<^verbatim>\<open>functions/src/index.ts\<close> throw \<^verbatim>\<open>HttpsError(code, message)\<close>.
  A handler is modelled as a function from the backend state to a pair of its outcome
  (\<open>Inl\<close> the thrown error, \<open>Inr\<close> the returned object) and the backend state it leaves.
\<close>

datatype error_code = Unauthenticated | PermissionDenied | InvalidArgument | Internal | Unknown

datatype https_error = HttpsError error_code string

type_synonym claims = "string \<rightharpoonup> bool"

text \<open>\<^verbatim>\<open>request.auth\<close> / \<^verbatim>\<open>context.auth\<close>: the caller's uid and decoded ID token.\<close>

record auth_data =
  auth_uid :: string
  auth_token :: "claims option"

text \<open>
  \<^verbatim>\<open>request.data\<close> of the v2 callables is untyped; every handler destructures the
  fields it needs. \<open>None\<close> stands for a field that is missing (or, for \<open>isAdmin\<close>,
  not a boolean).
\<close>

record request_data =
  data_uid :: "string option"
  data_email :: "string option"
  data_isAdmin :: "bool option"

record callable_request =
  auth :: "auth_data option"
  data :: request_data

text \<open>The v1 callables take \<^verbatim>\<open>(data, context)\<close>.\<close>

record callable_context =
  ctx_auth :: "auth_data option"

record download_data =
  fileName :: string

record upload_data = download_data +
  fileUrl :: string

record user_view =
  view_uid :: string
  view_email :: "string option"
  view_displayName :: "string option"
  view_disabled :: bool

record file_item =
  name :: string
  url :: string

datatype response =
    SuccessMessage string
  | SuccessUsers "user_view list"
  | Message string
  | Files "file_item list"

section \<open>The backend: Firebase Auth, Firestore, the two buckets\<close>

record user_record =
  uid :: string
  email :: "string option"
  displayName :: "string option"
  disabled :: bool
  password :: string
  customClaims :: claims

datatype field = FStr string | FBool bool | FTime nat

record stored_object =
  content :: string
  contentType :: string

text \<open>Every call a handler makes to a backend service, in the order it is made.\<close>

datatype call =
    GetUserByEmail string
  | SetCustomUserClaims string
  | UsersDocSet string
  | ListUsers nat "nat option"
  | UpdateUser string
  | DeleteUser string
  | Fetch string
  | WriteTmp string
  | BucketUpload string string
  | GcpFilesSet string string
  | GetFiles string
  | FileDownload string
  | FileSave string
  | FileDelete string
  | GcpFilesDelete string string
  | Unlink string
  | DeleteObject string
  | ListAll string
  | GetDownloadURL string

text \<open>
  \<open>users\<close> is the Firebase Auth user table in the provider's listing order,
  \<open>userDocs\<close> the Firestore collection \<^verbatim>\<open>users/{uid}\<close>, \<open>gcpFiles\<close> the Firestore
  documents \<^verbatim>\<open>gcpFiles/{uid}/files/{fileName}\<close> (the metadata index, value \<^verbatim>\<open>{url}\<close>),
  \<open>hot\<close> the default Firebase Storage bucket, \<open>cold\<close> the Coldline bucket, \<open>tmp\<close>
  the function instance's \<^verbatim>\<open>/tmp\<close> directory and \<open>calls\<close> the log of backend calls.
\<close>

record backend =
  users :: "user_record list"
  userDocs :: "string \<rightharpoonup> (string \<rightharpoonup> field)"
  gcpFiles :: "(string \<times> string) \<rightharpoonup> string"
  hot :: "(string \<times> stored_object) list"
  cold :: "(string \<times> stored_object) list"
  tmp :: "string \<rightharpoonup> string"
  calls :: "call list"

record http_response =
  ok :: bool
  status :: nat
  body :: string
  content_type_header :: "string option"

text \<open>
  What the handlers cannot decide themselves: \<open>fetch\<close> answers an HTTP GET (\<open>None\<close>:
  the request is rejected, the source is unreachable), \<open>fails\<close> says which backend
  calls throw for a reason of the service's own (quota, network, validation),
  \<open>now\<close> is the server timestamp, \<open>random36\<close> is the string
  \<^verbatim>\<open>Math.random().toString(36)\<close> of this invocation and \<open>download_url\<close> is the
  download URL that Firebase Storage hands out for a Hot-tier key.
\<close>

record env =
  fetch :: "string \<Rightarrow> http_response option"
  fails :: "call \<Rightarrow> bool"
  now :: nat
  random36 :: string
  download_url :: "string \<Rightarrow> string"

type_synonym 'a result = "(https_error + 'a) \<times> backend"

definition record_call :: "call \<Rightarrow> backend \<Rightarrow> backend" where
  "record_call c s = s\<lparr>calls := calls s @ [c]\<rparr>"

text \<open>A backend call returns \<open>None\<close> when it throws.\<close>

definition attempt :: "env \<Rightarrow> call \<Rightarrow> (backend \<Rightarrow> 'a option \<times> backend) \<Rightarrow> backend \<Rightarrow> 'a option \<times> backend" where
  "attempt e c f s =
     (if fails e c then (None, record_call c s) else f (record_call c s))"

text \<open>Sequencing inside a \<^verbatim>\<open>try\<close> block: the first call that throws ends the block.\<close>

definition and_then :: "(backend \<Rightarrow> 'a option \<times> backend) \<Rightarrow> ('a \<Rightarrow> backend \<Rightarrow> 'b option \<times> backend) \<Rightarrow> backend \<Rightarrow> 'b option \<times> backend" where
  "and_then m f s = (case m s of (None, s') \<Rightarrow> (None, s') | (Some x, s') \<Rightarrow> f x s')"

subsection \<open>Firebase Auth (Admin SDK)\<close>

definition has_user :: "string \<Rightarrow> backend \<Rightarrow> bool" where
  "has_user i s = (i \<in> set (map uid (users s)))"

definition getUserByEmail :: "env \<Rightarrow> string \<Rightarrow> backend \<Rightarrow> user_record option \<times> backend" where
  "getUserByEmail e em =
     attempt e (GetUserByEmail em) (\<lambda>s. (find (\<lambda>u. email u = Some em) (users s), s))"

definition modify_user :: "string \<Rightarrow> (user_record \<Rightarrow> user_record) \<Rightarrow> backend \<Rightarrow> unit option \<times> backend" where
  "modify_user i f s =
     (if has_user i s
      then (Some (), s\<lparr>users := map (\<lambda>u. if uid u = i then f u else u) (users s)\<rparr>)
      else (None, s))"

text \<open>\<^verbatim>\<open>setCustomUserClaims\<close> replaces the whole custom-claims object of the user.\<close>

definition setCustomUserClaims :: "env \<Rightarrow> string \<Rightarrow> claims \<Rightarrow> backend \<Rightarrow> unit option \<times> backend" where
  "setCustomUserClaims e i c =
     attempt e (SetCustomUserClaims i) (modify_user i (\<lambda>u. u\<lparr>customClaims := c\<rparr>))"

datatype update = SetPassword string | SetDisabled bool

fun apply_update :: "update \<Rightarrow> user_record \<Rightarrow> user_record" where
  "apply_update (SetPassword p) u = u\<lparr>password := p\<rparr>"
| "apply_update (SetDisabled b) u = u\<lparr>disabled := b\<rparr>"

definition updateUser :: "env \<Rightarrow> string \<Rightarrow> update \<Rightarrow> backend \<Rightarrow> unit option \<times> backend" where
  "updateUser e i upd = attempt e (UpdateUser i) (modify_user i (apply_update upd))"

definition deleteUser :: "env \<Rightarrow> string \<Rightarrow> backend \<Rightarrow> unit option \<times> backend" where
  "deleteUser e i =
     attempt e (DeleteUser i)
       (\<lambda>s. if has_user i s
            then (Some (), s\<lparr>users := filter (\<lambda>u. uid u \<noteq> i) (users s)\<rparr>)
            else (None, s))"

text \<open>
  \<^verbatim>\<open>listUsers(maxResults, pageToken)\<close>: a page of at most \<open>maxResults\<close> users and the
  token of the next page, absent when the listing is exhausted. The opaque token is
  the number of users already listed.
\<close>

record list_users_result =
  lur_users :: "user_record list"
  lur_pageToken :: "nat option"

definition page_offset :: "nat option \<Rightarrow> nat" where
  "page_offset t = (case t of None \<Rightarrow> 0 | Some k \<Rightarrow> k)"

definition listUsers :: "env \<Rightarrow> nat \<Rightarrow> nat option \<Rightarrow> backend \<Rightarrow> list_users_result option \<times> backend" where
  "listUsers e maxResults pageToken =
     attempt e (ListUsers maxResults pageToken)
       (\<lambda>s. (Some \<lparr>lur_users = take maxResults (drop (page_offset pageToken) (users s)),
                   lur_pageToken =
                     (if page_offset pageToken + maxResults < length (users s)
                      then Some (page_offset pageToken + maxResults) else None)\<rparr>, s))"

subsection \<open>Firestore\<close>

text \<open>\<^verbatim>\<open>doc(`users/${uid}`).set(fields, { merge: true })\<close> keeps the other fields.\<close>

definition usersDocSetMerge :: "env \<Rightarrow> string \<Rightarrow> (string \<rightharpoonup> field) \<Rightarrow> backend \<Rightarrow> unit option \<times> backend" where
  "usersDocSetMerge e i flds =
     attempt e (UsersDocSet i)
       (\<lambda>s. (Some (), s\<lparr>userDocs := (userDocs s)(i \<mapsto>
                (case userDocs s i of None \<Rightarrow> flds | Some old \<Rightarrow> old ++ flds))\<rparr>))"

definition gcpFilesSet :: "env \<Rightarrow> string \<Rightarrow> string \<Rightarrow> string \<Rightarrow> backend \<Rightarrow> unit option \<times> backend" where
  "gcpFilesSet e i f u =
     attempt e (GcpFilesSet i f) (\<lambda>s. (Some (), s\<lparr>gcpFiles := (gcpFiles s)((i, f) \<mapsto> u)\<rparr>))"

definition gcpFilesDelete :: "env \<Rightarrow> string \<Rightarrow> string \<Rightarrow> backend \<Rightarrow> unit option \<times> backend" where
  "gcpFilesDelete e i f =
     attempt e (GcpFilesDelete i f) (\<lambda>s. (Some (), s\<lparr>gcpFiles := (gcpFiles s)((i, f) := None)\<rparr>))"

subsection \<open>HTTP fetch, the staging directory and the two buckets\<close>

definition fetch_url :: "env \<Rightarrow> string \<Rightarrow> backend \<Rightarrow> http_response option \<times> backend" where
  "fetch_url e u = attempt e (Fetch u) (\<lambda>s. (fetch e u, s))"

text \<open>\<^verbatim>\<open>path.join("/tmp", fileName)\<close>, without the normalisation of dot segments.\<close>

definition path_join :: "string \<Rightarrow> string \<Rightarrow> string" where
  "path_join d f = d @ ''/'' @ f"

definition writeTmp :: "env \<Rightarrow> string \<Rightarrow> string \<Rightarrow> backend \<Rightarrow> unit option \<times> backend" where
  "writeTmp e p bytes = attempt e (WriteTmp p) (\<lambda>s. (Some (), s\<lparr>tmp := (tmp s)(p \<mapsto> bytes)\<rparr>))"

text \<open>\<^verbatim>\<open>fs.unlinkSync\<close> inside its own \<^verbatim>\<open>try\<close>: a failure is logged and swallowed.\<close>

definition unlinkSync :: "env \<Rightarrow> string \<Rightarrow> backend \<Rightarrow> backend" where
  "unlinkSync e p s =
     (if fails e (Unlink p) then record_call (Unlink p) s
      else (record_call (Unlink p) s)\<lparr>tmp := (tmp s)(p := None)\<rparr>)"

definition bucketUpload :: "env \<Rightarrow> string \<Rightarrow> string \<Rightarrow> string \<Rightarrow> backend \<Rightarrow> unit option \<times> backend" where
  "bucketUpload e p destination ctype =
     attempt e (BucketUpload p destination)
       (\<lambda>s. case tmp s p of
              None \<Rightarrow> (None, s)
            | Some bytes \<Rightarrow>
                (Some (), s\<lparr>cold := AList.update destination
                                      \<lparr>content = bytes, contentType = ctype\<rparr> (cold s)\<rparr>))"

definition getFiles :: "env \<Rightarrow> string \<Rightarrow> backend \<Rightarrow> string list option \<times> backend" where
  "getFiles e pre =
     attempt e (GetFiles pre) (\<lambda>s. (Some (filter (prefix pre) (map fst (cold s))), s))"

definition fileDownload :: "env \<Rightarrow> string \<Rightarrow> backend \<Rightarrow> string option \<times> backend" where
  "fileDownload e k =
     attempt e (FileDownload k) (\<lambda>s. (map_option content (map_of (cold s) k), s))"

definition fileSave :: "env \<Rightarrow> string \<Rightarrow> string \<Rightarrow> string \<Rightarrow> backend \<Rightarrow> unit option \<times> backend" where
  "fileSave e k bytes ctype =
     attempt e (FileSave k)
       (\<lambda>s. (Some (), s\<lparr>hot := AList.update k \<lparr>content = bytes, contentType = ctype\<rparr> (hot s)\<rparr>))"

definition fileDelete :: "env \<Rightarrow> string \<Rightarrow> backend \<Rightarrow> unit option \<times> backend" where
  "fileDelete e k =
     attempt e (FileDelete k)
       (\<lambda>s. case map_of (cold s) k of
              None \<Rightarrow> (None, s)
            | Some _ \<Rightarrow> (Some (), s\<lparr>cold := AList.delete k (cold s)\<rparr>))"

text \<open>The client SDK's \<^verbatim>\<open>deleteObject(ref(storage, key))\<close> on the Hot tier.\<close>

definition deleteObject :: "env \<Rightarrow> string \<Rightarrow> backend \<Rightarrow> unit option \<times> backend" where
  "deleteObject e k =
     attempt e (DeleteObject k)
       (\<lambda>s. case map_of (hot s) k of
              None \<Rightarrow> (None, s)
            | Some _ \<Rightarrow> (Some (), s\<lparr>hot := AList.delete k (hot s)\<rparr>))"

text \<open>
  The client SDK's \<^verbatim>\<open>listAll(ref(storage, folder))\<close>: the keys of the objects directly
  inside the folder, and \<^verbatim>\<open>getDownloadURL(item)\<close>.
\<close>

definition listAll :: "env \<Rightarrow> string \<Rightarrow> backend \<Rightarrow> string list option \<times> backend" where
  "listAll e folder =
     attempt e (ListAll folder)
       (\<lambda>s. (Some (filter (\<lambda>k. prefix (folder @ ''/'') k
                                \<and> CHR ''/'' \<notin> set (drop (length folder + 1) k))
                          (map fst (hot s))), s))"

definition getDownloadURL :: "env \<Rightarrow> string \<Rightarrow> backend \<Rightarrow> string option \<times> backend" where
  "getDownloadURL e k = attempt e (GetDownloadURL k) (\<lambda>s. (Some (download_url e k), s))"

section \<open>The Cloud Functions\<close>

definition bucketName :: string where
  "bucketName = ''double-edge-coldline-bucket-030340395''"

text \<open>\<^verbatim>\<open>email.endsWith(suffix)\<close>.\<close>

definition endsWith :: "string \<Rightarrow> string \<Rightarrow> bool" where
  "endsWith s suf = (length suf \<le> length s \<and> drop (length s - length suf) s = suf)"

text \<open>\<^verbatim>\<open>s.slice(-n)\<close>: the last \<open>n\<close> characters, the whole string when it is shorter.\<close>

definition slice_last :: "nat \<Rightarrow> string \<Rightarrow> string" where
  "slice_last n s = drop (length s - n) s"

text \<open>\<^verbatim>\<open>s.replace(pat, rep)\<close> with a string pattern: the first occurrence only.\<close>

fun replace_first :: "string \<Rightarrow> string \<Rightarrow> string \<Rightarrow> string" where
  "replace_first pat rep s =
     (if prefix pat s then rep @ drop (length pat) s
      else (case s of [] \<Rightarrow> [] | c # cs \<Rightarrow> c # replace_first pat rep cs))"

text \<open>\<^verbatim>\<open>header || fallback\<close>.\<close>

definition or_default :: "string option \<Rightarrow> string \<Rightarrow> string" where
  "or_default h d = (case h of None \<Rightarrow> d | Some v \<Rightarrow> if v = [] then d else v)"

subsection \<open>Claims\<close>

text \<open>The \<^verbatim>\<open>auth.user().onCreate\<close> trigger, run on the record of the new user.\<close>

definition setCustomClaims :: "env \<Rightarrow> user_record \<Rightarrow> backend \<Rightarrow> unit result" where
  "setCustomClaims e user s =
     (case email user of
        None \<Rightarrow> (Inr (), s)
      | Some em \<Rightarrow>
          if em = [] then (Inr (), s)
          else
            let isGCPEnabled = endsWith em ''@example.com'' in
            (case setCustomUserClaims e (uid user) [''gcpAccess'' \<mapsto> isGCPEnabled] s of
               (None, s') \<Rightarrow> (Inl (HttpsError Internal ''Failed to set custom claims.''), s')
             | (Some _, s') \<Rightarrow> (Inr (), s')))"

definition setCustomAdminClaims :: "env \<Rightarrow> callable_request \<Rightarrow> backend \<Rightarrow> response result" where
  "setCustomAdminClaims e request s =
     (case auth request of
        None \<Rightarrow>
          (Inl (HttpsError Unauthenticated ''You must be authenticated to set custom claims.''), s)
      | Some _ \<Rightarrow>
          (case data_isAdmin (data request) of
             None \<Rightarrow>
               (Inl (HttpsError InvalidArgument
                      (''The '' @ [CHR 0x22] @ ''isAdmin'' @ [CHR 0x22] @ '' field must be a boolean.'')), s)
           | Some isAdmin \<Rightarrow>
               (case data_email (data request) of
                  None \<Rightarrow>
                    (Inl (HttpsError InvalidArgument
                           (''The '' @ [CHR 0x22] @ ''email'' @ [CHR 0x22] @ '' parameter is required.'')), s)
                | Some em \<Rightarrow>
                    if em = [] then
                      (Inl (HttpsError InvalidArgument
                             (''The '' @ [CHR 0x22] @ ''email'' @ [CHR 0x22] @ '' parameter is required.'')), s)
                    else
                      (case and_then (getUserByEmail e em) (\<lambda>user.
                            and_then (setCustomUserClaims e (uid user)
                                        [''gcpAccess'' \<mapsto> True, ''admin'' \<mapsto> isAdmin]) (\<lambda>_.
                            usersDocSetMerge e (uid user)
                              [''email'' \<mapsto> FStr em, ''isAdmin'' \<mapsto> FBool isAdmin,
                               ''gcpAccess'' \<mapsto> FBool True, ''createdAt'' \<mapsto> FTime (now e)])) s of
                         (None, s') \<Rightarrow> (Inl (HttpsError Unknown ''Failed to set custom claims.''), s')
                       | (Some _, s') \<Rightarrow>
                           (Inr (SuccessMessage (''Custom claims updated for user: '' @ em)), s')))))"

definition grantGCPAccess :: "env \<Rightarrow> callable_context \<Rightarrow> backend \<Rightarrow> response result" where
  "grantGCPAccess e context s =
     (case ctx_auth context of
        None \<Rightarrow> (Inl (HttpsError Unauthenticated ''User not authenticated.''), s)
      | Some a \<Rightarrow>
          (case setCustomUserClaims e (auth_uid a) [''gcpAccess'' \<mapsto> True] s of
             (None, s') \<Rightarrow> (Inl (HttpsError Internal ''Failed to grant GCP access.''), s')
           | (Some _, s') \<Rightarrow>
               (Inr (Message ''GCP access granted successfully. Please refresh your token.''), s')))"

subsection \<open>Account lifecycle\<close>

text \<open>\<open>checkAdminAuth\<close> returns the error it throws, \<open>None\<close> when it lets the call pass.\<close>

definition checkAdminAuth :: "callable_request \<Rightarrow> https_error option" where
  "checkAdminAuth request =
     (case auth request of
        None \<Rightarrow> Some (HttpsError PermissionDenied ''You must be an admin to perform this action.'')
      | Some a \<Rightarrow>
          (case auth_token a of
             None \<Rightarrow> Some (HttpsError PermissionDenied ''You must be an admin to perform this action.'')
           | Some t \<Rightarrow>
               if t ''admin'' \<noteq> Some True
               then Some (HttpsError PermissionDenied ''You must be an admin to perform this action.'')
               else None))"

definition toView :: "user_record \<Rightarrow> user_view" where
  "toView userRecord =
     \<lparr>view_uid = uid userRecord, view_email = email userRecord,
      view_displayName = displayName userRecord, view_disabled = disabled userRecord\<rparr>"

text \<open>The \<^verbatim>\<open>do { ... } while (pageToken)\<close> loop of \<open>fetchUsers\<close>.\<close>

function fetchUsers_loop :: "env \<Rightarrow> nat option \<Rightarrow> user_view list \<Rightarrow> backend \<Rightarrow> user_view list option \<times> backend" where
  "fetchUsers_loop e pageToken acc s =
     (case listUsers e 1000 pageToken s of
        (None, s') \<Rightarrow> (None, s')
      | (Some listUsersResult, s') \<Rightarrow>
          (case lur_pageToken listUsersResult of
             None \<Rightarrow> (Some (acc @ map toView (lur_users listUsersResult)), s')
           | Some t \<Rightarrow>
               fetchUsers_loop e (Some t) (acc @ map toView (lur_users listUsersResult)) s'))"
  by pat_completeness auto
termination
  by (relation "measure (\<lambda>(e, pageToken, acc, s). length (users s) - page_offset pageToken)")
     (auto simp: listUsers_def attempt_def record_call_def page_offset_def
           split: if_splits option.splits)

definition fetchUsers :: "env \<Rightarrow> callable_request \<Rightarrow> backend \<Rightarrow> response result" where
  "fetchUsers e request s =
     (case checkAdminAuth request of
        Some err \<Rightarrow> (Inl err, s)
      | None \<Rightarrow>
          (case fetchUsers_loop e None [] s of
             (None, s') \<Rightarrow> (Inl (HttpsError Unknown ''Failed to fetch users.''), s')
           | (Some us, s') \<Rightarrow> (Inr (SuccessUsers us), s')))"

text \<open>
  The \<open>listUsers\<close> calls that walk a table of \<open>n\<close> users from the token \<open>tok\<close> on:
  pages of 1000, each next call carrying the token of the page before.
\<close>

definition page_calls :: "nat option \<Rightarrow> nat \<Rightarrow> call list" where
  "page_calls tok n =
     ListUsers 1000 tok #
     map (\<lambda>j. ListUsers 1000 (Some (page_offset tok + 1000 * j)))
         [1..<Suc ((n - page_offset tok - 1) div 1000)]"

definition generatePassword :: "env \<Rightarrow> string" where
  "generatePassword e = slice_last 8 (random36 e)"

definition resetUserPassword :: "env \<Rightarrow> callable_request \<Rightarrow> backend \<Rightarrow> response result" where
  "resetUserPassword e request s =
     (case checkAdminAuth request of
        Some err \<Rightarrow> (Inl err, s)
      | None \<Rightarrow>
          (case data_uid (data request) of
             None \<Rightarrow> (Inl (HttpsError InvalidArgument ''UID is required to reset the password.''), s)
           | Some i \<Rightarrow>
               if i = [] then
                 (Inl (HttpsError InvalidArgument ''UID is required to reset the password.''), s)
               else
                 let newPassword = generatePassword e in
                 (case updateUser e i (SetPassword newPassword) s of
                    (None, s') \<Rightarrow> (Inl (HttpsError Unknown ''Failed to reset password.''), s')
                  | (Some _, s') \<Rightarrow>
                      (Inr (SuccessMessage (''Password reset successfully: '' @ newPassword)), s'))))"

definition disableUserAccount :: "env \<Rightarrow> callable_request \<Rightarrow> backend \<Rightarrow> response result" where
  "disableUserAccount e request s =
     (case checkAdminAuth request of
        Some err \<Rightarrow> (Inl err, s)
      | None \<Rightarrow>
          (case data_uid (data request) of
             None \<Rightarrow> (Inl (HttpsError InvalidArgument ''UID is required to disable the account.''), s)
           | Some i \<Rightarrow>
               if i = [] then
                 (Inl (HttpsError InvalidArgument ''UID is required to disable the account.''), s)
               else
                 (case updateUser e i (SetDisabled True) s of
                    (None, s') \<Rightarrow> (Inl (HttpsError Unknown ''Failed to disable user account.''), s')
                  | (Some _, s') \<Rightarrow>
                      (Inr (SuccessMessage ''User account disabled successfully.''), s'))))"

definition enableUserAccount :: "env \<Rightarrow> callable_request \<Rightarrow> backend \<Rightarrow> response result" where
  "enableUserAccount e request s =
     (case checkAdminAuth request of
        Some err \<Rightarrow> (Inl err, s)
      | None \<Rightarrow>
          (case data_uid (data request) of
             None \<Rightarrow> (Inl (HttpsError InvalidArgument ''UID is required to enable the account.''), s)
           | Some i \<Rightarrow>
               if i = [] then
                 (Inl (HttpsError InvalidArgument ''UID is required to enable the account.''), s)
               else
                 (case updateUser e i (SetDisabled False) s of
                    (None, s') \<Rightarrow> (Inl (HttpsError Unknown ''Failed to enable user account.''), s')
                  | (Some _, s') \<Rightarrow>
                      (Inr (SuccessMessage ''User account enabled successfully.''), s'))))"

definition deleteUserAccount :: "env \<Rightarrow> callable_request \<Rightarrow> backend \<Rightarrow> response result" where
  "deleteUserAccount e request s =
     (case checkAdminAuth request of
        Some err \<Rightarrow> (Inl err, s)
      | None \<Rightarrow>
          (case data_uid (data request) of
             None \<Rightarrow> (Inl (HttpsError InvalidArgument ''UID is required to delete the account.''), s)
           | Some i \<Rightarrow>
               if i = [] then
                 (Inl (HttpsError InvalidArgument ''UID is required to delete the account.''), s)
               else
                 (case deleteUser e i s of
                    (None, s') \<Rightarrow> (Inl (HttpsError Unknown ''Failed to delete user account.''), s')
                  | (Some _, s') \<Rightarrow>
                      (Inr (SuccessMessage ''User account deleted successfully.''), s'))))"

subsection \<open>Tier operations\<close>

definition coldUrl :: "string \<Rightarrow> string" where
  "coldUrl key = ''https://storage.googleapis.com/'' @ bucketName @ ''/'' @ key"

text \<open>The \<^verbatim>\<open>try\<close> block of \<open>uploadToGCPBucket\<close>.\<close>

definition upload_try :: "env \<Rightarrow> upload_data \<Rightarrow> string \<Rightarrow> string \<Rightarrow> backend \<Rightarrow> response option \<times> backend" where
  "upload_try e d i destination =
     and_then (fetch_url e (fileUrl d)) (\<lambda>response.
       if \<not> ok response then Pair None
       else
         let tempFilePath = path_join ''/tmp'' (fileName d) in
         and_then (writeTmp e tempFilePath (body response)) (\<lambda>_.
         and_then (bucketUpload e tempFilePath destination
                     (or_default (content_type_header response) ''application/octet-stream'')) (\<lambda>_.
         and_then (gcpFilesSet e i (fileName d) (coldUrl destination)) (\<lambda>_.
         Pair (Some (Message ''File uploaded successfully.''))))))"

definition uploadToGCPBucket :: "env \<Rightarrow> upload_data \<Rightarrow> callable_context \<Rightarrow> backend \<Rightarrow> response result" where
  "uploadToGCPBucket e d context s =
     (case ctx_auth context of
        None \<Rightarrow> (Inl (HttpsError Unauthenticated ''User not authenticated.''), s)
      | Some a \<Rightarrow>
          let i = auth_uid a;
              destination = i @ ''/'' @ fileName d
          in (case upload_try e d i destination s of
                (None, s') \<Rightarrow>
                  (Inl (HttpsError Internal ''File upload failed.''),
                   unlinkSync e (path_join ''/tmp'' (fileName d)) s')
              | (Some r, s') \<Rightarrow>
                  (Inr r, unlinkSync e (path_join ''/tmp'' (fileName d)) s')))"

definition listGCPFiles :: "env \<Rightarrow> callable_context \<Rightarrow> backend \<Rightarrow> response result" where
  "listGCPFiles e context s =
     (case ctx_auth context of
        None \<Rightarrow> (Inl (HttpsError Unauthenticated ''User not authenticated.''), s)
      | Some a \<Rightarrow>
          let pre = auth_uid a @ ''/'' in
          (case getFiles e pre s of
             (None, s') \<Rightarrow> (Inl (HttpsError Internal ''Failed to list GCP bucket files.''), s')
           | (Some fs, s') \<Rightarrow>
               (Inr (Files (map (\<lambda>file. \<lparr>name = replace_first pre [] file, url = coldUrl file\<rparr>) fs)),
                s')))"

text \<open>The \<^verbatim>\<open>try\<close> block of \<open>downloadFromGCPBucket\<close>.\<close>

definition download_try :: "env \<Rightarrow> string \<Rightarrow> string \<Rightarrow> backend \<Rightarrow> response option \<times> backend" where
  "download_try e i f =
     and_then (fileDownload e (i @ ''/'' @ f)) (\<lambda>contents.
     and_then (fileSave e (i @ ''/'' @ f) contents ''application/octet-stream'') (\<lambda>_.
     and_then (fileDelete e (i @ ''/'' @ f)) (\<lambda>_.
     and_then (gcpFilesDelete e i f) (\<lambda>_.
     Pair (Some (Message (''File '' @ f @ '' successfully received and stored.'')))))))"

definition downloadFromGCPBucket :: "env \<Rightarrow> download_data \<Rightarrow> callable_context \<Rightarrow> backend \<Rightarrow> response result" where
  "downloadFromGCPBucket e d context s =
     (case ctx_auth context of
        None \<Rightarrow> (Inl (HttpsError Unauthenticated ''User not authenticated.''), s)
      | Some a \<Rightarrow>
          if fileName d = [] then (Inl (HttpsError InvalidArgument ''File name is required.''), s)
          else
            (case download_try e (auth_uid a) (fileName d) s of
               (None, s') \<Rightarrow>
                 (Inl (HttpsError Internal ''Failed to receive file from GCP bucket.''), s')
             | (Some r, s') \<Rightarrow> (Inr r, s')))"

section \<open>The client components\<close>

text \<open>
  The state of the page around a list component (\<^verbatim>\<open>FileList\<close> lists the Hot tier,
  \<^verbatim>\<open>GCPBucketList\<close> the Cold tier): the signed-in user, whose ID token travels with every
  callable; \<open>refreshFiles\<close>, the flag of \<^verbatim>\<open>Main.tsx\<close> that the callbacks \<^verbatim>\<open>onFilesMoved\<close>
  and \<^verbatim>\<open>onFilesReceived\<close> flip; the listed files, the selection, the error banner, the
  three busy flags and the alerts shown so far.
\<close>

record client =
  currentUser :: "auth_data option"
  refreshFiles :: bool
  files :: "file_item list"
  selectedFiles :: "string list"
  error :: "string option"
  isLoading :: bool
  isReceiving :: bool
  isMoving :: bool
  alerts :: "string list"

definition digit_char :: "nat \<Rightarrow> char" where
  "digit_char d = ''0123456789'' ! d"

text \<open>A number inside a template literal.\<close>

fun show_nat :: "nat \<Rightarrow> string" where
  "show_nat n = (if n < 10 then [digit_char n] else show_nat (n div 10) @ [digit_char (n mod 10)])"

subsection \<open>\<^verbatim>\<open>GCPBucketList\<close>\<close>

text \<open>\<^verbatim>\<open>response.data.files || []\<close>.\<close>

definition response_files :: "response \<Rightarrow> file_item list" where
  "response_files r = (case r of Files fs \<Rightarrow> fs | _ \<Rightarrow> [])"

text \<open>
  \<open>fetchGCPFiles\<close> lists the caller's Cold files through \<open>listGCPFiles\<close>. Where a handler
  starts it without awaiting it, the model gives the state once the refresh has settled.
\<close>

definition fetchGCPFiles :: "env \<Rightarrow> client \<Rightarrow> backend \<Rightarrow> client \<times> backend" where
  "fetchGCPFiles e c s =
     (case currentUser c of
        None \<Rightarrow> (c, s)
      | Some _ \<Rightarrow>
          (case listGCPFiles e \<lparr>ctx_auth = currentUser c\<rparr> s of
             (Inr response, s') \<Rightarrow>
               (c\<lparr>error := None, files := response_files response, isLoading := False\<rparr>, s')
           | (Inl _, s') \<Rightarrow>
               (c\<lparr>error := Some ''Failed to fetch files from GCP bucket. Please try again.'',
                  isLoading := False\<rparr>, s')))"

text \<open>
  The \<^verbatim>\<open>for\<close> loop of \<open>handleReceiveFiles\<close> with its inner \<^verbatim>\<open>try/catch\<close>: one
  \<open>downloadFromGCPBucket\<close> call per selected name, the name pushed to
  \<open>successfulDownloads\<close> or to \<open>failedDownloads\<close>.
\<close>

fun receive_loop :: "env \<Rightarrow> auth_data option \<Rightarrow> string list \<Rightarrow> string list \<Rightarrow> string list \<Rightarrow> backend \<Rightarrow> string list \<times> string list \<times> backend" where
  "receive_loop e u [] successfulDownloads failedDownloads s =
     (successfulDownloads, failedDownloads, s)"
| "receive_loop e u (f # fs) successfulDownloads failedDownloads s =
     (case downloadFromGCPBucket e \<lparr>fileName = f\<rparr> \<lparr>ctx_auth = u\<rparr> s of
        (Inr _, s') \<Rightarrow> receive_loop e u fs (successfulDownloads @ [f]) failedDownloads s'
      | (Inl _, s') \<Rightarrow> receive_loop e u fs successfulDownloads (failedDownloads @ [f]) s')"

definition receive_alert :: "string list \<Rightarrow> string list \<Rightarrow> string" where
  "receive_alert successfulDownloads failedDownloads =
     ''Successfully received '' @ show_nat (length successfulDownloads) @ '' files. '' @
     (if length failedDownloads > 0
      then show_nat (length failedDownloads) @ '' files failed to download.''
      else [])"

text \<open>
  After the loop: the summary alert, \<^verbatim>\<open>setSelectedFiles([])\<close>, \<^verbatim>\<open>onFilesReceived()\<close>,
  \<^verbatim>\<open>fetchGCPFiles()\<close>, and \<^verbatim>\<open>setIsReceiving(false)\<close> in the \<^verbatim>\<open>finally\<close> block.
\<close>

definition handleReceiveFiles :: "env \<Rightarrow> client \<Rightarrow> backend \<Rightarrow> client \<times> backend" where
  "handleReceiveFiles e c s =
     (case currentUser c of
        None \<Rightarrow> (c\<lparr>error := Some ''User is not authenticated.''\<rparr>, s)
      | Some _ \<Rightarrow>
          (case receive_loop e (currentUser c) (selectedFiles c) [] [] s of
             (successfulDownloads, failedDownloads, s') \<Rightarrow>
               (case fetchGCPFiles e
                       (c\<lparr>error := None,
                          alerts := (if length successfulDownloads > 0
                                     then alerts c @ [receive_alert successfulDownloads failedDownloads]
                                     else alerts c),
                          selectedFiles := [],
                          refreshFiles := \<not> refreshFiles c\<rparr>) s' of
                  (c', s'') \<Rightarrow> (c'\<lparr>isReceiving := False\<rparr>, s''))))"

subsection \<open>\<^verbatim>\<open>FileList\<close>\<close>

text \<open>
  \<open>fetchFiles\<close> lists the caller's Hot folder and asks a download URL for every item; the
  URL requests of \<^verbatim>\<open>Promise.all\<close> are all made, and one that fails fails the refresh.
\<close>

definition fetchFiles :: "env \<Rightarrow> client \<Rightarrow> backend \<Rightarrow> client \<times> backend" where
  "fetchFiles e c s =
     (case currentUser c of
        None \<Rightarrow> (c\<lparr>error := Some ''User is not authenticated.''\<rparr>, s)
      | Some u \<Rightarrow>
          (case listAll e (auth_uid u) s of
             (None, s') \<Rightarrow> (c\<lparr>error := Some ''Failed to fetch files. Please try again.''\<rparr>, s')
           | (Some items, s') \<Rightarrow>
               if list_ex (\<lambda>k. fails e (GetDownloadURL k)) items
               then (c\<lparr>error := Some ''Failed to fetch files. Please try again.''\<rparr>,
                     s'\<lparr>calls := calls s' @ map GetDownloadURL items\<rparr>)
               else (c\<lparr>error := None,
                       files := map (\<lambda>k. \<lparr>name = drop (length (auth_uid u) + 1) k,
                                            url = download_url e k\<rparr>) items\<rparr>,
                     s'\<lparr>calls := calls s' @ map GetDownloadURL items\<rparr>)))"

text \<open>
  The \<^verbatim>\<open>for\<close> loop of \<open>moveToGCPBucket\<close> inside the outer \<^verbatim>\<open>try\<close>: \<open>False\<close> when a
  call threw and the loop was left, \<open>True\<close> when every selected name was handled.
\<close>

fun move_loop :: "env \<Rightarrow> auth_data \<Rightarrow> file_item list \<Rightarrow> string list \<Rightarrow> backend \<Rightarrow> bool \<times> backend" where
  "move_loop e u fl [] s = (True, s)"
| "move_loop e u fl (f # fs) s =
     (case find (\<lambda>file. name file = f) fl of
        None \<Rightarrow> move_loop e u fl fs s
      | Some file \<Rightarrow>
          (case uploadToGCPBucket e \<lparr>fileName = name file, fileUrl = url file\<rparr>
                  \<lparr>ctx_auth = Some u\<rparr> s of
             (Inl _, s') \<Rightarrow> (False, s')
           | (Inr _, s') \<Rightarrow>
               (case deleteObject e (auth_uid u @ ''/'' @ name file) s' of
                  (None, s'') \<Rightarrow> (False, s'')
                | (Some _, s'') \<Rightarrow> move_loop e u fl fs s'')))"

text \<open>
  After a loop that ran to its end: the alert, \<^verbatim>\<open>setSelectedFiles([])\<close>,
  \<^verbatim>\<open>onFilesMoved()\<close> and \<^verbatim>\<open>fetchFiles()\<close>; after a loop that threw, the error banner;
  \<^verbatim>\<open>setIsMoving(false)\<close> in the \<^verbatim>\<open>finally\<close> block either way.
\<close>

definition moveToGCPBucket :: "env \<Rightarrow> client \<Rightarrow> backend \<Rightarrow> client \<times> backend" where
  "moveToGCPBucket e c s =
     (case currentUser c of
        None \<Rightarrow> (c\<lparr>error := Some ''User is not authenticated.''\<rparr>, s)
      | Some u \<Rightarrow>
          (case move_loop e u (files c) (selectedFiles c) s of
             (True, s') \<Rightarrow>
               (case fetchFiles e
                       (c\<lparr>alerts := alerts c @ [''Selected files successfully moved to GCP bucket.''],
                          selectedFiles := [],
                          refreshFiles := \<not> refreshFiles c\<rparr>) s' of
                  (c', s'') \<Rightarrow> (c'\<lparr>isMoving := False\<rparr>, s''))
           | (False, s') \<Rightarrow>
               (c\<lparr>error := Some ''Failed to move files to the GCP bucket. Please try again.'',
                  isMoving := False\<rparr>, s')))"

subsection \<open>Reading the call log of a move\<close>

text \<open>
  The five backend calls of an \<open>uploadToGCPBucket\<close> of the listed file \<open>fi\<close> by the
  account \<open>i\<close> that reaches its index write, and the property of a log that each Hot-tier
  delete in it comes right after these five calls for the same file.
\<close>

definition archive_calls :: "string \<Rightarrow> file_item \<Rightarrow> call list" where
  "archive_calls i fi =
     [Fetch (url fi), WriteTmp (path_join ''/tmp'' (name fi)),
      BucketUpload (path_join ''/tmp'' (name fi)) (i @ ''/'' @ name fi),
      GcpFilesSet i (name fi), Unlink (path_join ''/tmp'' (name fi))]"

definition deletes_follow_archive :: "string \<Rightarrow> file_item list \<Rightarrow> call list \<Rightarrow> bool" where
  "deletes_follow_archive i fl tr =
     (\<forall>pre k post. tr = pre @ DeleteObject k # post \<longrightarrow>
        (\<exists>pre' fi. fi \<in> set fl \<and> k = i @ ''/'' @ name fi \<and> pre = pre' @ archive_calls i fi))"

section \<open>Sample data\<close>

text \<open>A small deployment on which the theorems below are exercised.\<close>

definition root :: user_record where
  "root = \<lparr>uid = ''u0'', email = Some ''root@example.com'', displayName = Some ''Root'',
           disabled = False, password = ''pw-root'',
           customClaims = [''gcpAccess'' \<mapsto> True, ''admin'' \<mapsto> True]\<rparr>"

definition alice :: user_record where
  "alice = \<lparr>uid = ''u1'', email = Some ''alice@example.com'', displayName = Some ''Alice'',
            disabled = False, password = ''pw-alice'', customClaims = [''gcpAccess'' \<mapsto> True]\<rparr>"

definition bob :: user_record where
  "bob = \<lparr>uid = ''u2'', email = Some ''bob@test.org'', displayName = None,
          disabled = False, password = ''pw-bob'', customClaims = [''gcpAccess'' \<mapsto> False]\<rparr>"

text \<open>An account created without an email address.\<close>

definition newcomer :: user_record where
  "newcomer = \<lparr>uid = ''u3'', email = None, displayName = None, disabled = False,
               password = ''pw-new'', customClaims = Map.empty\<rparr>"

text \<open>
  No backend call fails, the download URL of Alice's Hot file answers 200, and
  \<^verbatim>\<open>Math.random()\<close> draws \<open>1/128\<close>, which base 36 renders as \<^verbatim>\<open>0.0a4i\<close>.
\<close>

definition quiet_env :: env where
  "quiet_env = \<lparr>fetch = (\<lambda>u. if u = ''https://hot.test/u1/a.txt''
                            then Some \<lparr>ok = True, status = 200, body = ''AAA'',
                                       content_type_header = Some ''text/plain''\<rparr>
                            else None),
               fails = (\<lambda>_. False), now = 7, random36 = ''0.0a4i'',
               download_url = (\<lambda>k. ''https://hot.test/'' @ k)\<rparr>"

text \<open>Alice holds \<^verbatim>\<open>a.txt\<close> in the Hot tier and \<^verbatim>\<open>b.txt\<close> in the Cold tier, Bob one Cold file.\<close>

definition sample_backend :: backend where
  "sample_backend = \<lparr>users = [root, alice, bob], userDocs = Map.empty,
     gcpFiles = [(''u1'', ''b.txt'') \<mapsto> coldUrl ''u1/b.txt'',
                 (''u2'', ''old.bin'') \<mapsto> coldUrl ''u2/old.bin''],
     hot = [(''u1/a.txt'', \<lparr>content = ''AAA'', contentType = ''text/plain''\<rparr>)],
     cold = [(''u1/b.txt'', \<lparr>content = ''BBB'', contentType = ''text/plain''\<rparr>),
             (''u2/old.bin'', \<lparr>content = ''OLD'', contentType = ''application/octet-stream''\<rparr>)],
     tmp = Map.empty, calls = []\<rparr>"

text \<open>The three sessions: Root is an administrator, Alice and Bob are not.\<close>

definition root_caller :: auth_data where
  "root_caller = \<lparr>auth_uid = ''u0'', auth_token = Some [''gcpAccess'' \<mapsto> True, ''admin'' \<mapsto> True]\<rparr>"

definition plain_caller :: auth_data where
  "plain_caller = \<lparr>auth_uid = ''u1'', auth_token = Some [''gcpAccess'' \<mapsto> True]\<rparr>"

definition bob_caller :: auth_data where
  "bob_caller = \<lparr>auth_uid = ''u2'', auth_token = Some [''gcpAccess'' \<mapsto> False]\<rparr>"

definition promote_bob :: request_data where
  "promote_bob = \<lparr>data_uid = Some ''u2'', data_email = Some ''bob@test.org'', data_isAdmin = Some True\<rparr>"

text \<open>Alice's account with two archived files and nothing in the Hot tier.\<close>

definition batch_backend :: backend where
  "batch_backend = sample_backend\<lparr>hot := [],
     cold := [(''u1/a.txt'', \<lparr>content = ''AAA'', contentType = ''text/plain''\<rparr>),
              (''u1/b.txt'', \<lparr>content = ''BBB'', contentType = ''text/plain''\<rparr>)]\<rparr>"

text \<open>Alice's list component showing the files \<open>fl\<close> with the names \<open>sel\<close> ticked.\<close>

definition alice_client :: "file_item list \<Rightarrow> string list \<Rightarrow> client" where
  "alice_client fl sel = \<lparr>currentUser = Some plain_caller, refreshFiles = False, files = fl,
                           selectedFiles = sel, error = None, isLoading = False,
                           isReceiving = False, isMoving = False, alerts = []\<rparr>"

text \<open>A user table of \<open>n\<close> accounts.\<close>

definition crowd :: "nat \<Rightarrow> user_record list" where
  "crowd n = map (\<lambda>i. \<lparr>uid = show_nat i, email = None, displayName = None, disabled = False,
                        password = [], customClaims = Map.empty\<rparr>) [0..<n]"

text \<open>Two entries of Alice's Hot listing; nothing answers at the URL of the second.\<close>

definition item_a :: file_item where
  "item_a = \<lparr>name = ''a.txt'', url = ''https://hot.test/u1/a.txt''\<rparr>"

definition item_z :: file_item where
  "item_z = \<lparr>name = ''z.txt'', url = ''https://hot.test/u1/z.txt''\<rparr>"

text \<open>The same environment with the download of Alice's Cold \<^verbatim>\<open>a.txt\<close> failing.\<close>

definition flaky_env :: env where
  "flaky_env = quiet_env\<lparr>fails := (\<lambda>x. x = FileDownload ''u1/a.txt'')\<rparr>"

section \<open>Properties\<close>

lemmas prim_defs = attempt_def and_then_def record_call_def modify_user_def has_user_def
  getUserByEmail_def setCustomUserClaims_def updateUser_def deleteUser_def listUsers_def
  usersDocSetMerge_def gcpFilesSet_def gcpFilesDelete_def fetch_url_def writeTmp_def unlinkSync_def
  bucketUpload_def getFiles_def fileDownload_def fileSave_def fileDelete_def deleteObject_def

lemmas sample_defs = root_def alice_def bob_def quiet_env_def sample_backend_def root_caller_def
  plain_caller_def bob_caller_def promote_bob_def newcomer_def batch_backend_def alice_client_def

lemma modify_user_Some:
  "modify_user i f s = (Some x, s') \<longleftrightarrow>
     i \<in> set (map uid (users s)) \<and> s' = s\<lparr>users := map (\<lambda>u. if uid u = i then f u else u) (users s)\<rparr>"
  by (auto simp: modify_user_def has_user_def)

lemma attempt_Some:
  "attempt e c f s = (Some x, s') \<longleftrightarrow> \<not> fails e c \<and> f (record_call c s) = (Some x, s')"
  by (simp add: attempt_def)

lemma attempt_None:
  "attempt e c f s = (None, s') \<longleftrightarrow>
     (fails e c \<and> s' = record_call c s) \<or> (\<not> fails e c \<and> f (record_call c s) = (None, s'))"
  by (auto simp: attempt_def)

lemma record_call_fields [simp]:
  "users (record_call c s) = users s" "userDocs (record_call c s) = userDocs s"
  "gcpFiles (record_call c s) = gcpFiles s" "hot (record_call c s) = hot s"
  "cold (record_call c s) = cold s" "tmp (record_call c s) = tmp s"
  "calls (record_call c s) = calls s @ [c]"
  by (simp_all add: record_call_def)

lemma unlinkSync_fields [simp]:
  "users (unlinkSync e p s) = users s" "userDocs (unlinkSync e p s) = userDocs s"
  "gcpFiles (unlinkSync e p s) = gcpFiles s" "hot (unlinkSync e p s) = hot s"
  "cold (unlinkSync e p s) = cold s" "calls (unlinkSync e p s) = calls s @ [Unlink p]"
  by (simp_all add: unlinkSync_def)

lemma and_then_Some:
  "and_then m f s = (Some y, s') \<longleftrightarrow> (\<exists>x s1. m s = (Some x, s1) \<and> f x s1 = (Some y, s'))"
  by (auto simp: and_then_def split: prod.splits option.splits)

text \<open>\<open>endsWith\<close> is the suffix relation of the list library.\<close>

lemma endsWith_suffix: "endsWith s suf \<longleftrightarrow> suffix suf s"
  unfolding endsWith_def
  by (metis suffix_drop suffix_length_le suffix_take append_take_drop_id diff_diff_cancel
      length_drop suffixE append_eq_conv_conj length_append add_diff_cancel_right')

subsection \<open>Authorization of the account operations\<close>

text \<open>
  C1, as stated, fails: \<open>setCustomAdminClaims\<close> only asks for an authenticated caller.
  Alice, whose token carries no \<open>admin\<close> claim, calls it for Bob's email; the call
  succeeds and Bob's custom claims now hold \<open>admin = true\<close>.
\<close>

theorem setCustomAdminClaims_non_admin_counterexample:
  "checkAdminAuth \<lparr>auth = Some plain_caller, data = promote_bob\<rparr> \<noteq> None
   \<and> fst (setCustomAdminClaims quiet_env \<lparr>auth = Some plain_caller, data = promote_bob\<rparr> sample_backend)
       = Inr (SuccessMessage ''Custom claims updated for user: bob@test.org'')
   \<and> uid (users sample_backend ! 2) = ''u2''
   \<and> customClaims (users sample_backend ! 2) ''admin'' = None
   \<and> customClaims
         (users (snd (setCustomAdminClaims quiet_env \<lparr>auth = Some plain_caller, data = promote_bob\<rparr>
                        sample_backend)) ! 2) ''admin''
       = Some True"
  by (simp add: checkAdminAuth_def setCustomAdminClaims_def prim_defs sample_defs)

text \<open>
  C1 (amended): each of the five account lifecycle operations (\<open>fetchUsers\<close>,
  \<open>resetUserPassword\<close>, \<open>disableUserAccount\<close>, \<open>enableUserAccount\<close>,
  \<open>deleteUserAccount\<close>), called with a token that lacks the \<open>admin\<close> claim or with no
  token at all, throws \<open>permission-denied\<close> and leaves the whole backend as it was, without
  a single backend call. \<open>setCustomAdminClaims\<close> is gated on authentication only: called
  without a token it throws \<open>unauthenticated\<close> and leaves the backend as it was; it never
  throws \<open>permission-denied\<close>; and for an authenticated caller its outcome is the same
  whoever the caller is and whatever the token holds, so the \<open>admin\<close> claim is not consulted.
\<close>

theorem lifecycle_requires_admin:
  assumes "\<not> (\<exists>a t. auth request = Some a \<and> auth_token a = Some t \<and> t ''admin'' = Some True)"
  shows "fetchUsers e request s =
           (Inl (HttpsError PermissionDenied ''You must be an admin to perform this action.''), s)
       \<and> resetUserPassword e request s =
           (Inl (HttpsError PermissionDenied ''You must be an admin to perform this action.''), s)
       \<and> disableUserAccount e request s =
           (Inl (HttpsError PermissionDenied ''You must be an admin to perform this action.''), s)
       \<and> enableUserAccount e request s =
           (Inl (HttpsError PermissionDenied ''You must be an admin to perform this action.''), s)
       \<and> deleteUserAccount e request s =
           (Inl (HttpsError PermissionDenied ''You must be an admin to perform this action.''), s)
       \<and> (auth request = None \<longrightarrow>
            setCustomAdminClaims e request s =
              (Inl (HttpsError Unauthenticated ''You must be authenticated to set custom claims.''), s))
       \<and> fst (setCustomAdminClaims e request s) \<noteq> Inl (HttpsError PermissionDenied m)
       \<and> setCustomAdminClaims e \<lparr>auth = Some a, data = d\<rparr> s
           = setCustomAdminClaims e \<lparr>auth = Some a', data = d\<rparr> s
       \<and> setCustomAdminClaims e \<lparr>auth = Some (a\<lparr>auth_token := t\<rparr>), data = d\<rparr> s
           = setCustomAdminClaims e \<lparr>auth = Some a, data = d\<rparr> s"
proof -
  from assms have "checkAdminAuth request =
      Some (HttpsError PermissionDenied ''You must be an admin to perform this action.'')"
    by (auto simp: checkAdminAuth_def split: option.splits)
  then have "fetchUsers e request s =
           (Inl (HttpsError PermissionDenied ''You must be an admin to perform this action.''), s)"
    and "resetUserPassword e request s =
           (Inl (HttpsError PermissionDenied ''You must be an admin to perform this action.''), s)"
    and "disableUserAccount e request s =
           (Inl (HttpsError PermissionDenied ''You must be an admin to perform this action.''), s)"
    and "enableUserAccount e request s =
           (Inl (HttpsError PermissionDenied ''You must be an admin to perform this action.''), s)"
    and "deleteUserAccount e request s =
           (Inl (HttpsError PermissionDenied ''You must be an admin to perform this action.''), s)"
    by (simp_all add: fetchUsers_def resetUserPassword_def disableUserAccount_def
        enableUserAccount_def deleteUserAccount_def)
  moreover have "auth request = None \<longrightarrow>
            setCustomAdminClaims e request s =
              (Inl (HttpsError Unauthenticated ''You must be authenticated to set custom claims.''), s)"
    by (simp add: setCustomAdminClaims_def)
  moreover have "fst (setCustomAdminClaims e request s) \<noteq> Inl (HttpsError PermissionDenied m)"
    by (simp add: setCustomAdminClaims_def split: option.splits prod.splits)
  moreover have "setCustomAdminClaims e \<lparr>auth = Some a, data = d\<rparr> s
           = setCustomAdminClaims e \<lparr>auth = Some a', data = d\<rparr> s"
    and "setCustomAdminClaims e \<lparr>auth = Some (a\<lparr>auth_token := t\<rparr>), data = d\<rparr> s
           = setCustomAdminClaims e \<lparr>auth = Some a, data = d\<rparr> s"
    by (simp_all add: setCustomAdminClaims_def split: option.splits)
  ultimately show ?thesis by blast
qed

theorem lifecycle_requires_admin_witness:
  "deleteUserAccount quiet_env \<lparr>auth = Some plain_caller, data = promote_bob\<rparr> sample_backend =
     (Inl (HttpsError PermissionDenied ''You must be an admin to perform this action.''), sample_backend)
   \<and> resetUserPassword quiet_env \<lparr>auth = None, data = promote_bob\<rparr> sample_backend =
     (Inl (HttpsError PermissionDenied ''You must be an admin to perform this action.''), sample_backend)
   \<and> setCustomAdminClaims quiet_env \<lparr>auth = None, data = promote_bob\<rparr> sample_backend =
     (Inl (HttpsError Unauthenticated ''You must be authenticated to set custom claims.''), sample_backend)
   \<and> setCustomAdminClaims quiet_env \<lparr>auth = Some plain_caller, data = promote_bob\<rparr> sample_backend
     = setCustomAdminClaims quiet_env \<lparr>auth = Some root_caller, data = promote_bob\<rparr> sample_backend"
proof -
  have plain: "\<not> (\<exists>a t. auth \<lparr>auth = Some plain_caller, data = promote_bob\<rparr> = Some a
                 \<and> auth_token a = Some t \<and> t ''admin'' = Some True)"
    by (simp add: plain_caller_def)
  have anon: "\<not> (\<exists>a t. auth \<lparr>auth = None, data = promote_bob\<rparr> = Some a
                 \<and> auth_token a = Some t \<and> t ''admin'' = Some True)"
    by simp
  show ?thesis
    using lifecycle_requires_admin [OF plain, where e = quiet_env and s = sample_backend
                                      and a = plain_caller and a' = root_caller and d = promote_bob]
          lifecycle_requires_admin [OF anon, where e = quiet_env and s = sample_backend]
    by simp
qed

subsection \<open>The replacement secret\<close>

lemma generatePassword_length: "length (generatePassword e) = min 8 (length (random36 e))"
  by (simp add: generatePassword_def slice_last_def)

text \<open>
  C7 fails on the code: \<^verbatim>\<open>Math.random().toString(36).slice(-8)\<close> keeps at most eight
  characters and fewer when the base-36 rendering is short. When \<^verbatim>\<open>Math.random()\<close>
  draws \<open>1/128\<close> the rendering is \<^verbatim>\<open>0.0a4i\<close>; Root's reset of Bob's password succeeds and
  the secret set on the account and returned in the response has six symbols.
\<close>

theorem resetUserPassword_short_secret:
  "fst (resetUserPassword quiet_env \<lparr>auth = Some root_caller, data = promote_bob\<rparr> sample_backend)
     = Inr (SuccessMessage ''Password reset successfully: 0.0a4i'')
   \<and> map password (users (snd (resetUserPassword quiet_env \<lparr>auth = Some root_caller, data = promote_bob\<rparr>
                                  sample_backend)))
     = [''pw-root'', ''pw-alice'', ''0.0a4i'']
   \<and> generatePassword quiet_env = ''0.0a4i''
   \<and> length (generatePassword quiet_env) = 6"
  by (simp add: resetUserPassword_def checkAdminAuth_def generatePassword_def slice_last_def Let_def
      prim_defs sample_defs)

subsection \<open>Claims written by the self-grant and by the creation trigger\<close>

text \<open>
  C9: after a successful \<open>grantGCPAccess\<close> the caller's custom claims are exactly
  \<open>{gcpAccess: true}\<close>: the whole claim object of the caller is replaced (every other
  account is left as it was), so an \<open>admin\<close> claim held before is gone.
\<close>

theorem grantGCPAccess_replaces_claims:
  assumes "grantGCPAccess e context s = (Inr r, s')"
  shows "\<exists>a. ctx_auth context = Some a
           \<and> auth_uid a \<in> set (map uid (users s))
           \<and> users s' = map (\<lambda>u. if uid u = auth_uid a
                                   then u\<lparr>customClaims := [''gcpAccess'' \<mapsto> True]\<rparr> else u) (users s)
           \<and> (\<forall>u \<in> set (users s'). uid u = auth_uid a \<longrightarrow>
                 customClaims u = [''gcpAccess'' \<mapsto> True] \<and> customClaims u ''admin'' = None)"
proof -
  from assms obtain a where a: "ctx_auth context = Some a"
    by (auto simp: grantGCPAccess_def split: option.splits)
  with assms have "setCustomUserClaims e (auth_uid a) [''gcpAccess'' \<mapsto> True] s = (Some (), s')"
    by (auto simp: grantGCPAccess_def split: option.splits prod.splits)
  then have ex: "auth_uid a \<in> set (map uid (users s))"
    and us: "users s' = map (\<lambda>u. if uid u = auth_uid a
                                   then u\<lparr>customClaims := [''gcpAccess'' \<mapsto> True]\<rparr> else u) (users s)"
    by (auto simp: setCustomUserClaims_def attempt_Some modify_user_Some record_call_def)
  from us have "\<forall>u \<in> set (users s'). uid u = auth_uid a \<longrightarrow>
                 customClaims u = [''gcpAccess'' \<mapsto> True] \<and> customClaims u ''admin'' = None"
    by auto
  with a ex us show ?thesis by blast
qed

theorem grantGCPAccess_replaces_claims_witness:
  "fst (grantGCPAccess quiet_env \<lparr>ctx_auth = Some root_caller\<rparr> sample_backend)
     = Inr (Message ''GCP access granted successfully. Please refresh your token.'')
   \<and> map (\<lambda>u. customClaims u ''admin'') (users sample_backend) = [Some True, None, None]
   \<and> map (\<lambda>u. customClaims u ''admin'')
        (users (snd (grantGCPAccess quiet_env \<lparr>ctx_auth = Some root_caller\<rparr> sample_backend)))
     = [None, None, None]"
proof -
  obtain r s' where run: "grantGCPAccess quiet_env \<lparr>ctx_auth = Some root_caller\<rparr> sample_backend = (Inr r, s')"
    and r: "r = Message ''GCP access granted successfully. Please refresh your token.''"
    by (simp add: grantGCPAccess_def prim_defs sample_defs)
  from grantGCPAccess_replaces_claims [OF run]
  have "users s' = map (\<lambda>u. if uid u = ''u0''
                             then u\<lparr>customClaims := [''gcpAccess'' \<mapsto> True]\<rparr> else u)
                       (users sample_backend)"
    by (auto simp: root_caller_def)
  then show ?thesis
    using run r by (simp add: sample_defs)
qed

text \<open>
  C10: the creation trigger \<open>setCustomClaims\<close> returns without touching the backend when
  the new account has no email (absent or empty); otherwise, the account being in the user
  table and the claims call not failing, it sets the account's custom claims to
  \<open>{gcpAccess: b}\<close> with \<open>b\<close> true exactly when the email ends with \<^verbatim>\<open>@example.com\<close>, and
  changes nothing else but the call log.
\<close>

theorem setCustomClaims_on_create:
  "(email user = None \<or> email user = Some [] \<longrightarrow> setCustomClaims e user s = (Inr (), s))
   \<and> (\<forall>em. email user = Some em \<and> em \<noteq> [] \<and> uid user \<in> set (map uid (users s))
            \<and> \<not> fails e (SetCustomUserClaims (uid user)) \<longrightarrow>
        setCustomClaims e user s =
          (Inr (), (record_call (SetCustomUserClaims (uid user)) s)
                     \<lparr>users := map (\<lambda>u. if uid u = uid user
                                         then u\<lparr>customClaims :=
                                                  [''gcpAccess'' \<mapsto> suffix ''@example.com'' em]\<rparr>
                                         else u) (users s)\<rparr>))"
  by (auto simp: setCustomClaims_def setCustomUserClaims_def attempt_def modify_user_def has_user_def
        record_call_def endsWith_suffix Let_def)

theorem setCustomClaims_on_create_witness:
  "setCustomClaims quiet_env newcomer sample_backend = (Inr (), sample_backend)
   \<and> map (\<lambda>u. customClaims u ''gcpAccess'')
        (users (snd (setCustomClaims quiet_env bob
                       (sample_backend\<lparr>users := [root, alice, bob\<lparr>customClaims := Map.empty\<rparr>]\<rparr>))))
      = [Some True, Some True, Some False]
   \<and> map (\<lambda>u. customClaims u ''gcpAccess'')
        (users (snd (setCustomClaims quiet_env alice
                       (sample_backend\<lparr>users := [root, alice\<lparr>customClaims := Map.empty\<rparr>, bob]\<rparr>))))
      = [Some True, Some True, Some False]"
  using setCustomClaims_on_create [of newcomer quiet_env sample_backend]
        setCustomClaims_on_create [of bob quiet_env
          "sample_backend\<lparr>users := [root, alice, bob\<lparr>customClaims := Map.empty\<rparr>]\<rparr>"]
        setCustomClaims_on_create [of alice quiet_env
          "sample_backend\<lparr>users := [root, alice\<lparr>customClaims := Map.empty\<rparr>, bob]\<rparr>"]
  by (simp add: sample_defs record_call_def suffix_def)

subsection \<open>The gate of the tier operations\<close>

text \<open>
  C3, as stated, fails in its second half: no tier operation reads the caller's claims.
  Bob's token carries \<open>gcpAccess = false\<close>; his listing returns his Cold file and his
  retrieve succeeds, neither throws \<open>permission-denied\<close>.
\<close>

theorem tier_ops_ignore_gcpAccess_counterexample:
  "auth_token bob_caller = Some [''gcpAccess'' \<mapsto> False]
   \<and> fst (listGCPFiles quiet_env \<lparr>ctx_auth = Some bob_caller\<rparr> sample_backend)
       = Inr (Files [\<lparr>name = ''old.bin'',
                      url = ''https://storage.googleapis.com/double-edge-coldline-bucket-030340395/u2/old.bin''\<rparr>])
   \<and> fst (downloadFromGCPBucket quiet_env \<lparr>fileName = ''old.bin''\<rparr> \<lparr>ctx_auth = Some bob_caller\<rparr>
            sample_backend)
       = Inr (Message ''File old.bin successfully received and stored.'')"
  by (simp add: listGCPFiles_def downloadFromGCPBucket_def download_try_def coldUrl_def bucketName_def
      prim_defs sample_defs)

text \<open>
  C3 (amended): each tier operation (\<open>uploadToGCPBucket\<close>, \<open>downloadFromGCPBucket\<close>,
  \<open>listGCPFiles\<close>) called without an authentication context throws \<open>unauthenticated\<close> and
  leaves the backend as it was. An authenticated call is never rejected for its claims: no
  tier operation throws \<open>permission-denied\<close>, and its outcome is the same whatever the token
  holds.
\<close>

theorem tier_ops_gate:
  "(ctx_auth ctx = None \<longrightarrow>
      uploadToGCPBucket e up ctx s = (Inl (HttpsError Unauthenticated ''User not authenticated.''), s)
    \<and> downloadFromGCPBucket e dn ctx s = (Inl (HttpsError Unauthenticated ''User not authenticated.''), s)
    \<and> listGCPFiles e ctx s = (Inl (HttpsError Unauthenticated ''User not authenticated.''), s))
   \<and> fst (uploadToGCPBucket e up ctx s) \<noteq> Inl (HttpsError PermissionDenied m)
   \<and> fst (downloadFromGCPBucket e dn ctx s) \<noteq> Inl (HttpsError PermissionDenied m)
   \<and> fst (listGCPFiles e ctx s) \<noteq> Inl (HttpsError PermissionDenied m)
   \<and> uploadToGCPBucket e up \<lparr>ctx_auth = Some (a\<lparr>auth_token := t\<rparr>)\<rparr> s
       = uploadToGCPBucket e up \<lparr>ctx_auth = Some a\<rparr> s
   \<and> downloadFromGCPBucket e dn \<lparr>ctx_auth = Some (a\<lparr>auth_token := t\<rparr>)\<rparr> s
       = downloadFromGCPBucket e dn \<lparr>ctx_auth = Some a\<rparr> s
   \<and> listGCPFiles e \<lparr>ctx_auth = Some (a\<lparr>auth_token := t\<rparr>)\<rparr> s
       = listGCPFiles e \<lparr>ctx_auth = Some a\<rparr> s"
  by (simp add: uploadToGCPBucket_def downloadFromGCPBucket_def listGCPFiles_def Let_def
        split: option.splits prod.splits)

theorem tier_ops_gate_witness:
  "listGCPFiles quiet_env \<lparr>ctx_auth = None\<rparr> sample_backend
     = (Inl (HttpsError Unauthenticated ''User not authenticated.''), sample_backend)
   \<and> downloadFromGCPBucket quiet_env \<lparr>fileName = ''b.txt''\<rparr> \<lparr>ctx_auth = None\<rparr> sample_backend
     = (Inl (HttpsError Unauthenticated ''User not authenticated.''), sample_backend)
   \<and> uploadToGCPBucket quiet_env \<lparr>fileName = ''a.txt'', fileUrl = ''https://hot.test/u1/a.txt''\<rparr>
        \<lparr>ctx_auth = None\<rparr> sample_backend
     = (Inl (HttpsError Unauthenticated ''User not authenticated.''), sample_backend)
   \<and> listGCPFiles quiet_env \<lparr>ctx_auth = Some (plain_caller\<lparr>auth_token := Some Map.empty\<rparr>)\<rparr> sample_backend
     = listGCPFiles quiet_env \<lparr>ctx_auth = Some plain_caller\<rparr> sample_backend"
  using tier_ops_gate [where ctx = "\<lparr>ctx_auth = None\<rparr>" and e = quiet_env
          and up = "\<lparr>fileName = ''a.txt'', fileUrl = ''https://hot.test/u1/a.txt''\<rparr>"
          and s = sample_backend and dn = "\<lparr>fileName = ''b.txt''\<rparr>"
          and a = plain_caller and t = "Some Map.empty"]
  by simp

subsection \<open>Archive: a failed fetch\<close>

text \<open>
  C5: when the fetch of the Hot-tier reference fails (the request is rejected, or the
  response status is not a success), \<open>uploadToGCPBucket\<close> throws and no durable state is
  touched: the Cold bucket, the metadata index, the Hot bucket and the account records are
  as before; at most the fetch itself and the cleanup of the staging file were called.
\<close>

theorem upload_fetch_failure:
  assumes "fails e (Fetch (fileUrl d)) \<or> fetch e (fileUrl d) = None
           \<or> (\<exists>response. fetch e (fileUrl d) = Some response \<and> \<not> ok response)"
  shows "\<exists>err s'. uploadToGCPBucket e d context s = (Inl err, s')
           \<and> cold s' = cold s \<and> gcpFiles s' = gcpFiles s \<and> hot s' = hot s
           \<and> users s' = users s \<and> userDocs s' = userDocs s
           \<and> (calls s' = calls s
                \<or> calls s' = calls s @ [Fetch (fileUrl d), Unlink (path_join ''/tmp'' (fileName d))])"
  using assms
  by (auto simp: uploadToGCPBucket_def upload_try_def fetch_url_def unlinkSync_def and_then_def
        attempt_def Let_def split: option.splits)

theorem upload_fetch_failure_witness:
  "fst (uploadToGCPBucket quiet_env \<lparr>fileName = ''a.txt'', fileUrl = ''https://hot.test/u1/gone.txt''\<rparr>
          \<lparr>ctx_auth = Some plain_caller\<rparr> sample_backend)
     = Inl (HttpsError Internal ''File upload failed.'')
   \<and> cold (snd (uploadToGCPBucket quiet_env
                   \<lparr>fileName = ''a.txt'', fileUrl = ''https://hot.test/u1/gone.txt''\<rparr>
                   \<lparr>ctx_auth = Some plain_caller\<rparr> sample_backend)) = cold sample_backend
   \<and> gcpFiles (snd (uploadToGCPBucket quiet_env
                       \<lparr>fileName = ''a.txt'', fileUrl = ''https://hot.test/u1/gone.txt''\<rparr>
                       \<lparr>ctx_auth = Some plain_caller\<rparr> sample_backend)) = gcpFiles sample_backend"
proof -
  have "fetch quiet_env (fileUrl \<lparr>fileName = ''a.txt'', fileUrl = ''https://hot.test/u1/gone.txt''\<rparr>) = None"
    by (simp add: quiet_env_def)
  then have "fails quiet_env (Fetch (fileUrl \<lparr>fileName = ''a.txt'', fileUrl = ''https://hot.test/u1/gone.txt''\<rparr>))
      \<or> fetch quiet_env (fileUrl \<lparr>fileName = ''a.txt'', fileUrl = ''https://hot.test/u1/gone.txt''\<rparr>) = None
      \<or> (\<exists>response. fetch quiet_env (fileUrl \<lparr>fileName = ''a.txt'', fileUrl = ''https://hot.test/u1/gone.txt''\<rparr>)
                         = Some response \<and> \<not> ok response)"
    by blast
  from upload_fetch_failure [OF this, of "\<lparr>ctx_auth = Some plain_caller\<rparr>" sample_backend]
  obtain err s' where run: "uploadToGCPBucket quiet_env
        \<lparr>fileName = ''a.txt'', fileUrl = ''https://hot.test/u1/gone.txt''\<rparr>
        \<lparr>ctx_auth = Some plain_caller\<rparr> sample_backend = (Inl err, s')"
    and "cold s' = cold sample_backend" and "gcpFiles s' = gcpFiles sample_backend"
    by blast
  moreover have "fst (uploadToGCPBucket quiet_env
        \<lparr>fileName = ''a.txt'', fileUrl = ''https://hot.test/u1/gone.txt''\<rparr>
        \<lparr>ctx_auth = Some plain_caller\<rparr> sample_backend) = Inl (HttpsError Internal ''File upload failed.'')"
    by (simp add: uploadToGCPBucket_def upload_try_def fetch_url_def and_then_def attempt_def
        quiet_env_def plain_caller_def)
  ultimately show ?thesis by simp
qed

subsection \<open>Retrieve\<close>

text \<open>
  C4: a successful \<open>downloadFromGCPBucket\<close> found the object in the Cold tier at
  \<^verbatim>\<open>{uid}/{fileName}\<close> and made exactly four backend calls, in this order: download of the
  Cold object, save of its bytes to the Hot tier under the same key, delete of the Cold
  object, delete of the metadata index entry. Afterwards the object is absent from Cold,
  present in Hot with the bytes it had in Cold, and the index entry is absent.
\<close>

theorem retrieve_success:
  assumes "downloadFromGCPBucket e d context s = (Inr r, s')"
  shows "\<exists>a obj. ctx_auth context = Some a
           \<and> map_of (cold s) (auth_uid a @ ''/'' @ fileName d) = Some obj
           \<and> calls s' = calls s @ [FileDownload (auth_uid a @ ''/'' @ fileName d),
                                    FileSave (auth_uid a @ ''/'' @ fileName d),
                                    FileDelete (auth_uid a @ ''/'' @ fileName d),
                                    GcpFilesDelete (auth_uid a) (fileName d)]
           \<and> hot s' = AList.update (auth_uid a @ ''/'' @ fileName d)
                         \<lparr>content = content obj, contentType = ''application/octet-stream''\<rparr> (hot s)
           \<and> cold s' = AList.delete (auth_uid a @ ''/'' @ fileName d) (cold s)
           \<and> gcpFiles s' = (gcpFiles s)((auth_uid a, fileName d) := None)
           \<and> map_of (cold s') (auth_uid a @ ''/'' @ fileName d) = None
           \<and> map_of (hot s') (auth_uid a @ ''/'' @ fileName d)
               = Some \<lparr>content = content obj, contentType = ''application/octet-stream''\<rparr>
           \<and> gcpFiles s' (auth_uid a, fileName d) = None"
proof -
  from assms obtain a where a: "ctx_auth context = Some a"
    by (auto simp: downloadFromGCPBucket_def split: option.splits)
  let ?k = "auth_uid a @ ''/'' @ fileName d"
  from assms a have tr: "download_try e (auth_uid a) (fileName d) s = (Some r, s')"
    by (auto simp: downloadFromGCPBucket_def split: option.splits prod.splits if_splits)
  then obtain contents s1 s2 s3 where
      dl: "fileDownload e ?k s = (Some contents, s1)"
    and sv: "fileSave e ?k contents ''application/octet-stream'' s1 = (Some (), s2)"
    and de: "fileDelete e ?k s2 = (Some (), s3)"
    and ix: "gcpFilesDelete e (auth_uid a) (fileName d) s3 = (Some (), s')"
    unfolding download_try_def and_then_Some by auto
  from dl obtain obj where obj: "map_of (cold s) ?k = Some obj" and c: "contents = content obj"
    and s1: "s1 = record_call (FileDownload ?k) s"
    by (auto simp: fileDownload_def attempt_Some)
  from sv have s2: "s2 = (record_call (FileSave ?k) s1)\<lparr>hot := AList.update ?k
                         \<lparr>content = contents, contentType = ''application/octet-stream''\<rparr> (hot s1)\<rparr>"
    by (auto simp: fileSave_def attempt_Some)
  from de have s3: "s3 = (record_call (FileDelete ?k) s2)\<lparr>cold := AList.delete ?k (cold s2)\<rparr>"
    by (auto simp: fileDelete_def attempt_Some split: option.splits)
  from ix have s': "s' = (record_call (GcpFilesDelete (auth_uid a) (fileName d)) s3)
                       \<lparr>gcpFiles := (gcpFiles s3)((auth_uid a, fileName d) := None)\<rparr>"
    by (auto simp: gcpFilesDelete_def attempt_Some)
  have "calls s' = calls s @ [FileDownload ?k, FileSave ?k, FileDelete ?k,
                              GcpFilesDelete (auth_uid a) (fileName d)]"
    and "hot s' = AList.update ?k \<lparr>content = content obj, contentType = ''application/octet-stream''\<rparr> (hot s)"
    and "cold s' = AList.delete ?k (cold s)"
    and "gcpFiles s' = (gcpFiles s)((auth_uid a, fileName d) := None)"
    by (simp_all add: s' s3 s2 s1 c)
  moreover from this have "map_of (cold s') ?k = None"
    and "map_of (hot s') ?k = Some \<lparr>content = content obj, contentType = ''application/octet-stream''\<rparr>"
    and "gcpFiles s' (auth_uid a, fileName d) = None"
    by (simp_all add: delete_conv' update_conv')
  ultimately show ?thesis using a obj by blast
qed

theorem retrieve_success_witness:
  "fst (downloadFromGCPBucket quiet_env \<lparr>fileName = ''b.txt''\<rparr> \<lparr>ctx_auth = Some plain_caller\<rparr>
          sample_backend)
     = Inr (Message ''File b.txt successfully received and stored.'')
   \<and> calls (snd (downloadFromGCPBucket quiet_env \<lparr>fileName = ''b.txt''\<rparr> \<lparr>ctx_auth = Some plain_caller\<rparr>
                    sample_backend))
     = [FileDownload ''u1/b.txt'', FileSave ''u1/b.txt'', FileDelete ''u1/b.txt'',
        GcpFilesDelete ''u1'' ''b.txt'']
   \<and> map_of (cold (snd (downloadFromGCPBucket quiet_env \<lparr>fileName = ''b.txt''\<rparr>
                           \<lparr>ctx_auth = Some plain_caller\<rparr> sample_backend))) ''u1/b.txt'' = None
   \<and> map_of (hot (snd (downloadFromGCPBucket quiet_env \<lparr>fileName = ''b.txt''\<rparr>
                          \<lparr>ctx_auth = Some plain_caller\<rparr> sample_backend))) ''u1/b.txt''
       = Some \<lparr>content = ''BBB'', contentType = ''application/octet-stream''\<rparr>
   \<and> gcpFiles (snd (downloadFromGCPBucket quiet_env \<lparr>fileName = ''b.txt''\<rparr>
                       \<lparr>ctx_auth = Some plain_caller\<rparr> sample_backend)) (''u1'', ''b.txt'') = None"
proof -
  obtain s' where run: "downloadFromGCPBucket quiet_env \<lparr>fileName = ''b.txt''\<rparr>
      \<lparr>ctx_auth = Some plain_caller\<rparr> sample_backend
      = (Inr (Message ''File b.txt successfully received and stored.''), s')"
    by (simp add: downloadFromGCPBucket_def download_try_def prim_defs sample_defs)
  from retrieve_success [OF run] show ?thesis
    unfolding run by (auto simp: sample_defs)
qed

subsection \<open>Listing the accounts\<close>

lemma upt_shift: "[1..<Suc (Suc m)] = 1 # map Suc [1..<Suc m]"
proof -
  have "[1..<Suc (Suc m)] = 1 # [Suc 1..<Suc (Suc m)]"
    by (rule upt_conv_Cons) simp
  also have "[Suc 1..<Suc (Suc m)] = map Suc [1..<Suc m]"
    by (simp only: map_Suc_upt)
  finally show ?thesis .
qed

lemma page_calls_step:
  assumes "page_offset tok + 1000 < n"
  shows "page_calls tok n = ListUsers 1000 tok # page_calls (Some (page_offset tok + 1000)) n"
proof -
  let ?k = "page_offset tok"
  let ?m = "(n - (?k + 1000) - 1) div 1000"
  from assms have "n - ?k - 1 = (n - (?k + 1000) - 1) + 1000" by arith
  then have m: "(n - ?k - 1) div 1000 = Suc ?m" by (simp only: div_add_self2)
  have po: "page_offset (Some (?k + 1000)) = ?k + 1000" by (simp add: page_offset_def)
  have "map (\<lambda>j. ListUsers 1000 (Some (?k + 1000 * j))) (map Suc [1..<Suc ?m])
        = map (\<lambda>j. ListUsers 1000 (Some (?k + 1000 + 1000 * j))) [1..<Suc ?m]"
    by (simp only: map_map comp_def mult_Suc_right add.assoc)
  then show ?thesis
    unfolding page_calls_def m po upt_shift by (simp only: list.map mult_1_right)
qed

lemma page_calls_last: "n \<le> page_offset tok + 1000 \<Longrightarrow> page_calls tok n = [ListUsers 1000 tok]"
  by (simp add: page_calls_def)

text \<open>
  The loop started at any token returns the accumulator extended by the views of all
  users from that offset on, having changed nothing but the call log.
\<close>

lemma fetchUsers_loop_ok:
  assumes "\<forall>t. \<not> fails e (ListUsers 1000 t)"
  shows "fetchUsers_loop e tok acc s =
           (Some (acc @ map toView (drop (page_offset tok) (users s))),
            s\<lparr>calls := calls s @ page_calls tok (length (users s))\<rparr>)"
  using assms
proof (induction e tok acc s rule: fetchUsers_loop.induct)
  case (1 e pageToken acc s)
  let ?k = "page_offset pageToken"
  let ?n = "length (users s)"
  let ?s1 = "record_call (ListUsers 1000 pageToken) s"
  let ?res = "\<lparr>lur_users = take 1000 (drop ?k (users s)),
               lur_pageToken = (if ?k + 1000 < ?n then Some (?k + 1000) else None)\<rparr>"
  from "1.prems" have lu: "listUsers e 1000 pageToken s = (Some ?res, ?s1)"
    by (simp add: listUsers_def attempt_def)
  show ?case
  proof (cases "?k + 1000 < ?n")
    case True
    then have tk: "lur_pageToken ?res = Some (?k + 1000)" by simp
    have "fetchUsers_loop e (Some (?k + 1000)) (acc @ map toView (lur_users ?res)) ?s1 =
           (Some ((acc @ map toView (lur_users ?res))
                  @ map toView (drop (page_offset (Some (?k + 1000))) (users ?s1))),
            ?s1\<lparr>calls := calls ?s1 @ page_calls (Some (?k + 1000)) (length (users ?s1))\<rparr>)"
      by (rule "1.IH" [OF lu [symmetric] refl tk "1.prems"])
    moreover have "take 1000 (drop ?k (users s)) @ drop (?k + 1000) (users s) = drop ?k (users s)"
      by (metis add.commute append_take_drop_id drop_drop)
    then have "map toView (take 1000 (drop ?k (users s))) @ map toView (drop (?k + 1000) (users s))
               = map toView (drop ?k (users s))"
      by (metis map_append)
    ultimately show ?thesis
      using True lu
      by (subst fetchUsers_loop.simps) (simp add: page_calls_step record_call_def page_offset_def)
  next
    case False
    then show ?thesis
      using lu
      by (subst fetchUsers_loop.simps) (simp add: page_calls_last record_call_def)
  qed
qed

lemma length_crowd: "length (crowd n) = n"
  by (simp add: crowd_def)

text \<open>
  C8: called by an administrator, with no \<open>listUsers\<close> call failing, \<open>fetchUsers\<close> asks for
  pages of 1000, the first without a token and each next with the token of the page before
  (offsets 1000, 2000, ... below the size of the table), and returns for every account of
  the table, each once and in the table's order, its \<open>uid\<close>, \<open>email\<close>, \<open>displayName\<close> and
  \<open>disabled\<close>, however many pages the table spans. Nothing but the call log changes.
\<close>

theorem fetchUsers_lists_all:
  assumes "auth request = Some a" and "auth_token a = Some t" and "t ''admin'' = Some True"
    and "\<forall>tok. \<not> fails e (ListUsers 1000 tok)"
  shows "fetchUsers e request s =
           (Inr (SuccessUsers
                   (map (\<lambda>u. \<lparr>view_uid = uid u, view_email = email u,
                              view_displayName = displayName u, view_disabled = disabled u\<rparr>)
                        (users s))),
            s\<lparr>calls := calls s @ ListUsers 1000 None #
                 map (\<lambda>j. ListUsers 1000 (Some (1000 * j)))
                     [1..<Suc ((length (users s) - 1) div 1000)]\<rparr>)
       \<and> map view_uid (map toView (users s)) = map uid (users s)
       \<and> map view_email (map toView (users s)) = map email (users s)
       \<and> map view_displayName (map toView (users s)) = map displayName (users s)
       \<and> map view_disabled (map toView (users s)) = map disabled (users s)"
proof -
  from assms(1-3) have adm: "checkAdminAuth request = None"
    by (simp add: checkAdminAuth_def)
  have loop: "fetchUsers_loop e None [] s =
      (Some (map toView (users s)), s\<lparr>calls := calls s @ page_calls None (length (users s))\<rparr>)"
    using fetchUsers_loop_ok [OF assms(4), of None "[]" s] by (simp add: page_offset_def)
  have pc: "page_calls None (length (users s)) = ListUsers 1000 None #
                 map (\<lambda>j. ListUsers 1000 (Some (1000 * j)))
                     [1..<Suc ((length (users s) - 1) div 1000)]"
    unfolding page_calls_def page_offset_def by simp
  have tv: "map toView (users s) =
              map (\<lambda>u. \<lparr>view_uid = uid u, view_email = email u,
                         view_displayName = displayName u, view_disabled = disabled u\<rparr>) (users s)"
    by (simp add: toView_def)
  have "fetchUsers e request s = (Inr (SuccessUsers (map toView (users s))),
      s\<lparr>calls := calls s @ page_calls None (length (users s))\<rparr>)"
    unfolding fetchUsers_def adm loop by simp
  then have "fetchUsers e request s =
           (Inr (SuccessUsers
                   (map (\<lambda>u. \<lparr>view_uid = uid u, view_email = email u,
                              view_displayName = displayName u, view_disabled = disabled u\<rparr>)
                        (users s))),
            s\<lparr>calls := calls s @ ListUsers 1000 None #
                 map (\<lambda>j. ListUsers 1000 (Some (1000 * j)))
                     [1..<Suc ((length (users s) - 1) div 1000)]\<rparr>)"
    unfolding pc tv .
  moreover have "map view_uid (map toView (users s)) = map uid (users s)"
    and "map view_email (map toView (users s)) = map email (users s)"
    and "map view_displayName (map toView (users s)) = map displayName (users s)"
    and "map view_disabled (map toView (users s)) = map disabled (users s)"
    by (simp_all add: toView_def comp_def)
  ultimately show ?thesis by blast
qed

text \<open>
  The sample table with Alice's account disabled, and a table of 1500 accounts, which takes
  two pages.
\<close>

theorem fetchUsers_lists_all_witness:
  "fetchUsers quiet_env \<lparr>auth = Some root_caller, data = promote_bob\<rparr>
        (sample_backend\<lparr>users := [root, alice\<lparr>disabled := True\<rparr>, bob]\<rparr>)
     = (Inr (SuccessUsers
          [\<lparr>view_uid = ''u0'', view_email = Some ''root@example.com'',
            view_displayName = Some ''Root'', view_disabled = False\<rparr>,
           \<lparr>view_uid = ''u1'', view_email = Some ''alice@example.com'',
            view_displayName = Some ''Alice'', view_disabled = True\<rparr>,
           \<lparr>view_uid = ''u2'', view_email = Some ''bob@test.org'',
            view_displayName = None, view_disabled = False\<rparr>]),
        sample_backend\<lparr>users := [root, alice\<lparr>disabled := True\<rparr>, bob],
                         calls := [ListUsers 1000 None]\<rparr>)
   \<and> fetchUsers quiet_env \<lparr>auth = Some root_caller, data = promote_bob\<rparr>
        (sample_backend\<lparr>users := crowd 1500\<rparr>)
     = (Inr (SuccessUsers
               (map (\<lambda>u. \<lparr>view_uid = uid u, view_email = email u,
                          view_displayName = displayName u, view_disabled = disabled u\<rparr>)
                    (crowd 1500))),
        sample_backend\<lparr>users := crowd 1500, calls := [ListUsers 1000 None, ListUsers 1000 (Some 1000)]\<rparr>)"
proof -
  let ?s1 = "sample_backend\<lparr>users := [root, alice\<lparr>disabled := True\<rparr>, bob]\<rparr>"
  let ?s2 = "sample_backend\<lparr>users := crowd 1500\<rparr>"
  have adm: "auth \<lparr>auth = Some root_caller, data = promote_bob\<rparr> = Some root_caller"
    "auth_token root_caller = Some [''gcpAccess'' \<mapsto> True, ''admin'' \<mapsto> True]"
    "[''gcpAccess'' \<mapsto> True, ''admin'' \<mapsto> True] ''admin'' = Some True"
    "\<forall>tok. \<not> fails quiet_env (ListUsers 1000 tok)"
    by (simp_all add: root_caller_def quiet_env_def)
  have p1: "[1..<Suc ((length (users ?s1) - 1) div 1000)] = []"
    by simp
  have p2: "[1..<Suc ((length (users ?s2) - 1) div 1000)] = [1]"
    by (simp add: length_crowd)
  have c0: "calls sample_backend = []"
    by (simp add: sample_backend_def)
  have v: "map (\<lambda>u. \<lparr>view_uid = uid u, view_email = email u,
                     view_displayName = displayName u, view_disabled = disabled u\<rparr>) (users ?s1) =
          [\<lparr>view_uid = ''u0'', view_email = Some ''root@example.com'',
            view_displayName = Some ''Root'', view_disabled = False\<rparr>,
           \<lparr>view_uid = ''u1'', view_email = Some ''alice@example.com'',
            view_displayName = Some ''Alice'', view_disabled = True\<rparr>,
           \<lparr>view_uid = ''u2'', view_email = Some ''bob@test.org'',
            view_displayName = None, view_disabled = False\<rparr>]"
    by (simp add: root_def alice_def bob_def)
  from fetchUsers_lists_all [OF adm, of ?s1]
  have r1: "fetchUsers quiet_env \<lparr>auth = Some root_caller, data = promote_bob\<rparr> ?s1
     = (Inr (SuccessUsers (map (\<lambda>u. \<lparr>view_uid = uid u, view_email = email u,
                     view_displayName = displayName u, view_disabled = disabled u\<rparr>) (users ?s1))),
        sample_backend\<lparr>users := [root, alice\<lparr>disabled := True\<rparr>, bob],
                         calls := [ListUsers 1000 None]\<rparr>)"
    unfolding p1 by (simp add: c0)
  from fetchUsers_lists_all [OF adm, of ?s2]
  have r2: "fetchUsers quiet_env \<lparr>auth = Some root_caller, data = promote_bob\<rparr> ?s2
     = (Inr (SuccessUsers
               (map (\<lambda>u. \<lparr>view_uid = uid u, view_email = email u,
                          view_displayName = displayName u, view_disabled = disabled u\<rparr>)
                    (crowd 1500))),
        sample_backend\<lparr>users := crowd 1500, calls := [ListUsers 1000 None, ListUsers 1000 (Some 1000)]\<rparr>)"
    unfolding p2 by (simp add: c0)
  show ?thesis using r1 [unfolded v] r2 by (intro conjI)
qed

subsection \<open>Archive\<close>

text \<open>What a successful \<open>uploadToGCPBucket\<close> has done.\<close>

lemma upload_effect:
  assumes "uploadToGCPBucket e d context s = (Inr r, s')"
  shows "\<exists>a response. ctx_auth context = Some a \<and> fetch e (fileUrl d) = Some response \<and> ok response
           \<and> hot s' = hot s
           \<and> cold s' = AList.update (auth_uid a @ ''/'' @ fileName d)
                          \<lparr>content = body response,
                           contentType = or_default (content_type_header response)
                                           ''application/octet-stream''\<rparr>
                          (cold s)
           \<and> gcpFiles s' = (gcpFiles s)((auth_uid a, fileName d) \<mapsto>
                                coldUrl (auth_uid a @ ''/'' @ fileName d))
           \<and> calls s' = calls s @ [Fetch (fileUrl d), WriteTmp (path_join ''/tmp'' (fileName d)),
                                    BucketUpload (path_join ''/tmp'' (fileName d))
                                                 (auth_uid a @ ''/'' @ fileName d),
                                    GcpFilesSet (auth_uid a) (fileName d),
                                    Unlink (path_join ''/tmp'' (fileName d))]"
proof -
  from assms obtain a where a: "ctx_auth context = Some a"
    by (auto simp: uploadToGCPBucket_def split: option.splits)
  let ?k = "auth_uid a @ ''/'' @ fileName d"
  let ?p = "path_join ''/tmp'' (fileName d)"
  from assms a obtain s4 where tr: "upload_try e d (auth_uid a) ?k s = (Some r, s4)"
    and fin: "s' = unlinkSync e ?p s4"
    by (auto simp: uploadToGCPBucket_def Let_def split: option.splits prod.splits)
  from tr obtain response s1 s2 s3 where
      ft: "fetch_url e (fileUrl d) s = (Some response, s1)" and okr: "ok response"
    and wr: "writeTmp e ?p (body response) s1 = (Some (), s2)"
    and up: "bucketUpload e ?p ?k
               (or_default (content_type_header response) ''application/octet-stream'') s2
               = (Some (), s3)"
    and ix: "gcpFilesSet e (auth_uid a) (fileName d) (coldUrl ?k) s3 = (Some (), s4)"
    by (auto simp: upload_try_def and_then_Some Let_def split: if_splits)
  from ft have f: "fetch e (fileUrl d) = Some response" and s1: "s1 = record_call (Fetch (fileUrl d)) s"
    by (auto simp: fetch_url_def attempt_Some)
  from wr have s2: "s2 = (record_call (WriteTmp ?p) s1)\<lparr>tmp := (tmp s1)(?p \<mapsto> body response)\<rparr>"
    by (auto simp: writeTmp_def attempt_Some)
  from up have s3: "s3 = (record_call (BucketUpload ?p ?k) s2)\<lparr>cold := AList.update ?k
      \<lparr>content = body response,
       contentType = or_default (content_type_header response) ''application/octet-stream''\<rparr> (cold s2)\<rparr>"
    by (auto simp: bucketUpload_def attempt_Some s2 split: option.splits)
  from ix have s4: "s4 = (record_call (GcpFilesSet (auth_uid a) (fileName d)) s3)
                          \<lparr>gcpFiles := (gcpFiles s3)((auth_uid a, fileName d) \<mapsto> coldUrl ?k)\<rparr>"
    by (auto simp: gcpFilesSet_def attempt_Some)
  have "hot s' = hot s"
    and "cold s' = AList.update ?k \<lparr>content = body response,
           contentType = or_default (content_type_header response) ''application/octet-stream''\<rparr> (cold s)"
    and "gcpFiles s' = (gcpFiles s)((auth_uid a, fileName d) \<mapsto> coldUrl ?k)"
    and "calls s' = calls s @ [Fetch (fileUrl d), WriteTmp ?p, BucketUpload ?p ?k,
                               GcpFilesSet (auth_uid a) (fileName d), Unlink ?p]"
    by (simp_all add: fin s4 s3 s2 s1)
  with a f okr show ?thesis by blast
qed

text \<open>Whatever its outcome, \<open>uploadToGCPBucket\<close> never writes to the Hot tier.\<close>

lemma upload_hot: "uploadToGCPBucket e d context s = (r, s') \<Longrightarrow> hot s' = hot s"
  by (auto simp: uploadToGCPBucket_def upload_try_def and_then_def fetch_url_def writeTmp_def
      bucketUpload_def gcpFilesSet_def attempt_def Let_def split: option.splits prod.splits if_splits)

lemma upload_keeps:
  assumes "uploadToGCPBucket e d context s = (r, s')"
  shows "(map_of (cold s) k \<noteq> None \<longrightarrow> map_of (cold s') k \<noteq> None)
       \<and> (gcpFiles s i \<noteq> None \<longrightarrow> gcpFiles s' i \<noteq> None)"
  using assms
  by (auto simp: uploadToGCPBucket_def upload_try_def and_then_def fetch_url_def writeTmp_def
      bucketUpload_def gcpFilesSet_def attempt_def Let_def update_conv'
      split: option.splits prod.splits if_splits)

lemma deleteObject_Some:
  "deleteObject e k s = (Some x, s') \<longleftrightarrow>
     \<not> fails e (DeleteObject k) \<and> map_of (hot s) k \<noteq> None
     \<and> s' = (record_call (DeleteObject k) s)\<lparr>hot := AList.delete k (hot s)\<rparr>"
  by (auto simp: deleteObject_def attempt_def split: option.splits)

lemma deleteObject_keeps:
  assumes "deleteObject e k0 s = (x, s')"
  shows "(map_of (hot s) k = None \<longrightarrow> map_of (hot s') k = None)
       \<and> cold s' = cold s \<and> gcpFiles s' = gcpFiles s"
  using assms
  by (auto simp: deleteObject_def attempt_def delete_conv' split: option.splits if_splits)

text \<open>What earlier passes of the move loop established survives the later ones.\<close>

lemma move_loop_keeps:
  assumes "move_loop e u fl sel s = (b, s')"
  shows "(map_of (hot s) k = None \<longrightarrow> map_of (hot s') k = None)
       \<and> (map_of (cold s) k \<noteq> None \<longrightarrow> map_of (cold s') k \<noteq> None)
       \<and> (gcpFiles s i \<noteq> None \<longrightarrow> gcpFiles s' i \<noteq> None)"
  using assms
proof (induction sel arbitrary: s)
  case Nil
  then show ?case by simp
next
  case (Cons f fs)
  show ?case
  proof (cases "find (\<lambda>fi. name fi = f) fl")
    case None
    with Cons show ?thesis by simp
  next
    case (Some fi)
    obtain r s1 where up: "uploadToGCPBucket e \<lparr>fileName = name fi, fileUrl = url fi\<rparr>
                  \<lparr>ctx_auth = Some u\<rparr> s = (r, s1)" by force
    note k1 = upload_keeps [OF up, of k i] upload_hot [OF up]
    show ?thesis
    proof (cases r)
      case (Inl err)
      with Cons.prems Some up have "s' = s1" by simp
      with k1 show ?thesis by simp
    next
      case (Inr ok_r)
      obtain x s2 where de: "deleteObject e (auth_uid u @ ''/'' @ name fi) s1 = (x, s2)" by force
      note k2 = deleteObject_keeps [OF de, of k]
      show ?thesis
      proof (cases x)
        case None
        with Cons.prems Some up Inr de have "s' = s2" by simp
        with k1 k2 show ?thesis by simp
      next
        case (Some y)
        with Cons.prems \<open>find (\<lambda>fi. name fi = f) fl = Some fi\<close> up Inr de
        have "move_loop e u fl fs s2 = (b, s')" by simp
        from Cons.IH [OF this] k1 k2 show ?thesis by simp
      qed
    qed
  qed
qed

text \<open>
  When the move loop runs to its end, every selected name that is among the listed files
  is gone from the Hot tier, present in the Cold tier and indexed.
\<close>

lemma move_loop_done:
  assumes "move_loop e u fl sel s = (True, s')" "f \<in> set sel" "find (\<lambda>fi. name fi = f) fl \<noteq> None"
  shows "map_of (hot s') (auth_uid u @ ''/'' @ f) = None
       \<and> map_of (cold s') (auth_uid u @ ''/'' @ f) \<noteq> None
       \<and> gcpFiles s' (auth_uid u, f) \<noteq> None"
  using assms
proof (induction sel arbitrary: s)
  case Nil
  then show ?case by simp
next
  case (Cons g gs)
  show ?case
  proof (cases "find (\<lambda>fi. name fi = g) fl")
    case None
    with Cons.prems have "f \<noteq> g" by auto
    with Cons None show ?thesis by simp
  next
    case (Some fi)
    then have nm: "name fi = g" by (auto simp: find_Some_iff)
    from Cons.prems(1) Some obtain r s1 x s2 where
        up: "uploadToGCPBucket e \<lparr>fileName = g, fileUrl = url fi\<rparr> \<lparr>ctx_auth = Some u\<rparr> s = (Inr r, s1)"
      and de: "deleteObject e (auth_uid u @ ''/'' @ g) s1 = (Some x, s2)"
      and rest: "move_loop e u fl gs s2 = (True, s')"
      by (auto simp: nm split: prod.splits sum.splits option.splits)
    show ?thesis
    proof (cases "f = g")
      case True
      from upload_effect [OF up] have "map_of (cold s1) (auth_uid u @ ''/'' @ g) \<noteq> None"
        and "gcpFiles s1 (auth_uid u, g) \<noteq> None"
        by (auto simp: update_conv')
      moreover from de have "map_of (hot s2) (auth_uid u @ ''/'' @ g) = None"
        and "cold s2 = cold s1" and "gcpFiles s2 = gcpFiles s1"
        by (auto simp: deleteObject_Some delete_conv')
      ultimately show ?thesis
        using move_loop_keeps [OF rest, of "auth_uid u @ ''/'' @ g" "(auth_uid u, g)"] True by simp
    next
      case False
      with Cons.prems have "f \<in> set gs" by simp
      from Cons.IH [OF rest this Cons.prems(3)] show ?thesis .
    qed
  qed
qed

text \<open>
  C2, as stated, fails: \<open>uploadToGCPBucket\<close> has no Hot-tier delete. Alice archives her
  Hot file \<^verbatim>\<open>a.txt\<close>; the call succeeds, the object is in the Cold tier and indexed, and it
  is still in the Hot tier; the calls made are fetch, staging write, bucket upload, index
  write and staging cleanup.
\<close>

theorem upload_leaves_hot_counterexample:
  "fst (uploadToGCPBucket quiet_env \<lparr>fileName = ''a.txt'', fileUrl = ''https://hot.test/u1/a.txt''\<rparr>
          \<lparr>ctx_auth = Some plain_caller\<rparr> sample_backend)
     = Inr (Message ''File uploaded successfully.'')
   \<and> map_of (hot (snd (uploadToGCPBucket quiet_env
                         \<lparr>fileName = ''a.txt'', fileUrl = ''https://hot.test/u1/a.txt''\<rparr>
                         \<lparr>ctx_auth = Some plain_caller\<rparr> sample_backend))) ''u1/a.txt''
     = Some \<lparr>content = ''AAA'', contentType = ''text/plain''\<rparr>
   \<and> map_of (cold (snd (uploadToGCPBucket quiet_env
                          \<lparr>fileName = ''a.txt'', fileUrl = ''https://hot.test/u1/a.txt''\<rparr>
                          \<lparr>ctx_auth = Some plain_caller\<rparr> sample_backend))) ''u1/a.txt''
     = Some \<lparr>content = ''AAA'', contentType = ''text/plain''\<rparr>
   \<and> calls (snd (uploadToGCPBucket quiet_env
                    \<lparr>fileName = ''a.txt'', fileUrl = ''https://hot.test/u1/a.txt''\<rparr>
                    \<lparr>ctx_auth = Some plain_caller\<rparr> sample_backend))
     = [Fetch ''https://hot.test/u1/a.txt'', WriteTmp ''/tmp/a.txt'',
        BucketUpload ''/tmp/a.txt'' ''u1/a.txt'', GcpFilesSet ''u1'' ''a.txt'', Unlink ''/tmp/a.txt'']"
  by (simp add: uploadToGCPBucket_def upload_try_def path_join_def or_default_def Let_def
      prim_defs sample_defs)

lemma dfa_no_delete: "(\<forall>k. DeleteObject k \<notin> set A) \<Longrightarrow> deletes_follow_archive i fl A"
  by (auto simp: deletes_follow_archive_def)

lemma dfa_append:
  assumes "deletes_follow_archive i fl A" "deletes_follow_archive i fl B"
  shows "deletes_follow_archive i fl (A @ B)"
  unfolding deletes_follow_archive_def
proof (intro allI impI)
  fix pre k post
  assume eq: "A @ B = pre @ DeleteObject k # post"
  then consider (left) post_A where "A = pre @ DeleteObject k # post_A"
    | (right) pre_B where "pre = A @ pre_B" "B = pre_B @ DeleteObject k # post"
    by (auto simp: append_eq_append_conv2 append_eq_Cons_conv)
  then show "\<exists>pre' fi. fi \<in> set fl \<and> k = i @ ''/'' @ name fi \<and> pre = pre' @ archive_calls i fi"
  proof cases
    case left
    with assms(1) show ?thesis unfolding deletes_follow_archive_def by blast
  next
    case right
    with assms(2) obtain pre' fi where "fi \<in> set fl" "k = i @ ''/'' @ name fi"
      "pre_B = pre' @ archive_calls i fi"
      unfolding deletes_follow_archive_def by blast
    with right show ?thesis by (intro exI [of _ "A @ pre'"] exI [of _ fi]) simp
  qed
qed

lemma dfa_pass:
  assumes "fi \<in> set fl"
  shows "deletes_follow_archive i fl (archive_calls i fi @ [DeleteObject (i @ ''/'' @ name fi)])"
  unfolding deletes_follow_archive_def
proof (intro allI impI)
  fix pre k post
  assume eq: "archive_calls i fi @ [DeleteObject (i @ ''/'' @ name fi)] = pre @ DeleteObject k # post"
  have nd: "\<forall>k. DeleteObject k \<notin> set (archive_calls i fi)" by (simp add: archive_calls_def)
  from eq nd have "pre = archive_calls i fi \<and> k = i @ ''/'' @ name fi"
    by (auto simp: append_eq_append_conv2 append_eq_Cons_conv Cons_eq_append_conv)
  with assms show "\<exists>pre' fi'. fi' \<in> set fl \<and> k = i @ ''/'' @ name fi' \<and> pre = pre' @ archive_calls i fi'"
    by (intro exI [of _ "[]"] exI [of _ fi]) simp
qed

lemma upload_calls:
  assumes "uploadToGCPBucket e d ctx s = (r, s')"
  shows "\<exists>A. calls s' = calls s @ A \<and> (\<forall>k. DeleteObject k \<notin> set A)"
  using assms
  by (auto simp: uploadToGCPBucket_def upload_try_def and_then_def fetch_url_def writeTmp_def
      bucketUpload_def gcpFilesSet_def attempt_def Let_def
      split: option.splits prod.splits if_splits)

lemma deleteObject_calls:
  assumes "deleteObject e k s = (x, s')"
  shows "calls s' = calls s @ [DeleteObject k] \<and> (x = None \<longrightarrow> hot s' = hot s)"
  using assms by (auto simp: deleteObject_def attempt_def split: option.splits if_splits)

text \<open>
  Every Hot-tier delete in the log of the move loop comes right after the five calls of an
  archive of the same file.
\<close>

lemma move_loop_log:
  assumes "move_loop e u fl sel s = (b, s')"
  shows "\<exists>tr. calls s' = calls s @ tr \<and> deletes_follow_archive (auth_uid u) fl tr"
  using assms
proof (induction sel arbitrary: s)
  case Nil
  then show ?case by (simp add: dfa_no_delete)
next
  case (Cons f fs)
  show ?case
  proof (cases "find (\<lambda>fi. name fi = f) fl")
    case None
    with Cons show ?thesis by simp
  next
    case (Some fi)
    then have mem: "fi \<in> set fl" by (auto simp: find_Some_iff in_set_conv_nth)
    obtain r s1 where up: "uploadToGCPBucket e \<lparr>fileName = name fi, fileUrl = url fi\<rparr>
                  \<lparr>ctx_auth = Some u\<rparr> s = (r, s1)" by force
    show ?thesis
    proof (cases r)
      case (Inl err)
      with Cons.prems Some up have "s' = s1" by simp
      with upload_calls [OF up] show ?thesis by (auto intro: dfa_no_delete)
    next
      case (Inr ok_r)
      with upload_effect [of e "\<lparr>fileName = name fi, fileUrl = url fi\<rparr>" "\<lparr>ctx_auth = Some u\<rparr>" s ok_r s1] up
      have c1: "calls s1 = calls s @ archive_calls (auth_uid u) fi"
        by (auto simp: archive_calls_def)
      obtain x s2 where de: "deleteObject e (auth_uid u @ ''/'' @ name fi) s1 = (x, s2)" by force
      from deleteObject_calls [OF de] c1
      have c2: "calls s2 = calls s @ (archive_calls (auth_uid u) fi
                                       @ [DeleteObject (auth_uid u @ ''/'' @ name fi)])"
        by simp
      note pass = dfa_pass [OF mem, of "auth_uid u"]
      show ?thesis
      proof (cases x)
        case None
        with Cons.prems Some up Inr de have "s' = s2" by simp
        with c2 pass show ?thesis by blast
      next
        case (Some y)
        with Cons.prems \<open>find (\<lambda>fi. name fi = f) fl = Some fi\<close> up Inr de
        have "move_loop e u fl fs s2 = (b, s')" by simp
        from Cons.IH [OF this] obtain tr where
          "calls s' = calls s2 @ tr" "deletes_follow_archive (auth_uid u) fl tr" by blast
        with c2 dfa_append [OF pass this(2)] show ?thesis
          by (intro exI [of _ "(archive_calls (auth_uid u) fi
                                 @ [DeleteObject (auth_uid u @ ''/'' @ name fi)]) @ tr"]) simp
      qed
    qed
  qed
qed

text \<open>
  Whatever the outcome of the move loop, an object that it removed from the Hot tier is in
  the Cold tier and indexed.
\<close>

lemma move_loop_safe:
  assumes "move_loop e u fl sel s = (b, s')" "map_of (hot s) k \<noteq> None" "map_of (hot s') k = None"
  shows "\<exists>f \<in> set sel. k = auth_uid u @ ''/'' @ f \<and> map_of (cold s') k \<noteq> None
            \<and> gcpFiles s' (auth_uid u, f) \<noteq> None"
  using assms
proof (induction sel arbitrary: s)
  case Nil
  then show ?case by simp
next
  case (Cons g gs)
  show ?case
  proof (cases "find (\<lambda>fi. name fi = g) fl")
    case None
    with Cons.prems have "move_loop e u fl gs s = (b, s')" by simp
    from Cons.IH [OF this Cons.prems(2,3)] show ?thesis by auto
  next
    case (Some fi)
    then have nm: "name fi = g" by (auto simp: find_Some_iff)
    obtain r s1 where up: "uploadToGCPBucket e \<lparr>fileName = g, fileUrl = url fi\<rparr>
                  \<lparr>ctx_auth = Some u\<rparr> s = (r, s1)" by force
    note h1 = upload_hot [OF up]
    show ?thesis
    proof (cases r)
      case (Inl err)
      with Cons.prems(1) Some up nm have "s' = s1" by simp
      with h1 Cons.prems(2,3) show ?thesis by simp
    next
      case (Inr ok_r)
      with upload_effect [of e "\<lparr>fileName = g, fileUrl = url fi\<rparr>" "\<lparr>ctx_auth = Some u\<rparr>" s ok_r s1] up
      have arch: "map_of (cold s1) (auth_uid u @ ''/'' @ g) \<noteq> None"
        "gcpFiles s1 (auth_uid u, g) \<noteq> None"
        by (auto simp: update_conv')
      obtain x s2 where de: "deleteObject e (auth_uid u @ ''/'' @ g) s1 = (x, s2)" by force
      show ?thesis
      proof (cases x)
        case None
        with Cons.prems(1) Some up Inr de nm have "s' = s2" by simp
        with deleteObject_calls [OF de] None h1 Cons.prems(2,3) show ?thesis by simp
      next
        case (Some y)
        with Cons.prems(1) \<open>find (\<lambda>fi. name fi = g) fl = Some fi\<close> up Inr de nm
        have rest: "move_loop e u fl gs s2 = (b, s')" by simp
        from de Some have s2: "hot s2 = AList.delete (auth_uid u @ ''/'' @ g) (hot s1)"
          "cold s2 = cold s1" "gcpFiles s2 = gcpFiles s1"
          by (auto simp: deleteObject_Some)
        show ?thesis
        proof (cases "k = auth_uid u @ ''/'' @ g")
          case True
          with arch s2 move_loop_keeps [OF rest, of "auth_uid u @ ''/'' @ g" "(auth_uid u, g)"]
          show ?thesis by auto
        next
          case False
          with s2 h1 Cons.prems(2) have "map_of (hot s2) k \<noteq> None"
            by (simp add: delete_conv')
          from Cons.IH [OF rest this Cons.prems(3)] show ?thesis by auto
        qed
      qed
    qed
  qed
qed

lemma move_loop_append:
  "move_loop e u fl (xs @ ys) s =
     (case move_loop e u fl xs s of
        (True, s1) \<Rightarrow> move_loop e u fl ys s1
      | (False, s1) \<Rightarrow> (False, s1))"
  by (induction xs arbitrary: s) (auto split: option.splits prod.splits sum.splits bool.splits)

text \<open>The refresh of the Hot listing reads only.\<close>

lemma fetchFiles_backend:
  assumes "fetchFiles e c s = (c', s')"
  shows "hot s' = hot s \<and> cold s' = cold s \<and> gcpFiles s' = gcpFiles s
       \<and> (\<exists>R. calls s' = calls s @ R \<and> (\<forall>k. DeleteObject k \<notin> set R))
       \<and> alerts c' = alerts c \<and> selectedFiles c' = selectedFiles c"
  using assms
  by (auto simp: fetchFiles_def listAll_def attempt_def split: option.splits prod.splits if_splits)

text \<open>
  C2 (amended): after a successful \<open>uploadToGCPBucket\<close> the object is present in the Cold
  tier at \<^verbatim>\<open>{uid}/{fileName}\<close> with the fetched bytes and a metadata index entry for
  \<open>(uid, fileName)\<close> holds its Cold URL; the call itself leaves the Hot tier untouched. The
  Hot-tier delete is made by the client's \<open>moveToGCPBucket\<close> after the archive call has
  returned: in the log of the handler every Hot-tier delete comes right after the five
  calls of an archive of the same file. When the archive call of a selected file throws, the
  handler stops there with the error banner: the backend is as the failed call left it, the
  Hot tier as it was before that file. Whatever the outcome, an object that the handler
  removed from the Hot tier is in the Cold tier and indexed. When the handler reports
  success, every selected file it lists is absent from the Hot tier, present in the Cold
  tier and indexed.
\<close>

theorem archive_completed_by_client:
  "(uploadToGCPBucket e d ctx s = (Inr r, s') \<longrightarrow>
      (\<exists>a response. ctx_auth ctx = Some a \<and> fetch e (fileUrl d) = Some response \<and> ok response
         \<and> hot s' = hot s
         \<and> map_of (cold s') (auth_uid a @ ''/'' @ fileName d)
             = Some \<lparr>content = body response,
                     contentType = or_default (content_type_header response)
                                     ''application/octet-stream''\<rparr>
         \<and> gcpFiles s' (auth_uid a, fileName d) = Some (coldUrl (auth_uid a @ ''/'' @ fileName d))
         \<and> calls s' = calls s @ [Fetch (fileUrl d), WriteTmp (path_join ''/tmp'' (fileName d)),
                                  BucketUpload (path_join ''/tmp'' (fileName d))
                                               (auth_uid a @ ''/'' @ fileName d),
                                  GcpFilesSet (auth_uid a) (fileName d),
                                  Unlink (path_join ''/tmp'' (fileName d))]))
   \<and> (currentUser c = Some u \<and> moveToGCPBucket e c s = (c', s'')
        \<and> alerts c' = alerts c @ [''Selected files successfully moved to GCP bucket.''] \<longrightarrow>
        (\<forall>f \<in> set (selectedFiles c). f \<in> name ` set (files c) \<longrightarrow>
            map_of (hot s'') (auth_uid u @ ''/'' @ f) = None
          \<and> map_of (cold s'') (auth_uid u @ ''/'' @ f) \<noteq> None
          \<and> gcpFiles s'' (auth_uid u, f) \<noteq> None))
   \<and> (currentUser c = Some u \<and> moveToGCPBucket e c s = (c', s'') \<longrightarrow>
        (\<exists>tr. calls s'' = calls s @ tr
           \<and> (\<forall>pre k post. tr = pre @ DeleteObject k # post \<longrightarrow>
                 (\<exists>pre' fi. fi \<in> set (files c) \<and> k = auth_uid u @ ''/'' @ name fi
                    \<and> pre = pre' @ [Fetch (url fi), WriteTmp (path_join ''/tmp'' (name fi)),
                                     BucketUpload (path_join ''/tmp'' (name fi))
                                                  (auth_uid u @ ''/'' @ name fi),
                                     GcpFilesSet (auth_uid u) (name fi),
                                     Unlink (path_join ''/tmp'' (name fi))]))))
   \<and> (currentUser c = Some u \<and> moveToGCPBucket e c s = (c', s'')
        \<and> map_of (hot s) k \<noteq> None \<and> map_of (hot s'') k = None \<longrightarrow>
        (\<exists>f \<in> set (selectedFiles c). k = auth_uid u @ ''/'' @ f
           \<and> map_of (cold s'') k \<noteq> None \<and> gcpFiles s'' (auth_uid u, f) \<noteq> None))
   \<and> (currentUser c = Some u \<and> selectedFiles c = sel1 @ f # sel2
        \<and> find (\<lambda>x. name x = f) (files c) = Some fi
        \<and> move_loop e u (files c) sel1 s = (True, s1)
        \<and> uploadToGCPBucket e \<lparr>fileName = name fi, fileUrl = url fi\<rparr> \<lparr>ctx_auth = Some u\<rparr> s1
            = (Inl err, s2) \<longrightarrow>
        moveToGCPBucket e c s =
          (c\<lparr>error := Some ''Failed to move files to the GCP bucket. Please try again.'',
             isMoving := False\<rparr>, s2)
        \<and> hot s2 = hot s1)"
proof (intro conjI impI)
  assume "uploadToGCPBucket e d ctx s = (Inr r, s')"
  from upload_effect [OF this] obtain a response where
      "ctx_auth ctx = Some a" "fetch e (fileUrl d) = Some response" "ok response" "hot s' = hot s"
      "cold s' = AList.update (auth_uid a @ ''/'' @ fileName d)
                   \<lparr>content = body response,
                    contentType = or_default (content_type_header response)
                                    ''application/octet-stream''\<rparr> (cold s)"
      "gcpFiles s' = (gcpFiles s)((auth_uid a, fileName d) \<mapsto>
                        coldUrl (auth_uid a @ ''/'' @ fileName d))"
      "calls s' = calls s @ [Fetch (fileUrl d), WriteTmp (path_join ''/tmp'' (fileName d)),
                             BucketUpload (path_join ''/tmp'' (fileName d))
                                          (auth_uid a @ ''/'' @ fileName d),
                             GcpFilesSet (auth_uid a) (fileName d),
                             Unlink (path_join ''/tmp'' (fileName d))]"
    by blast
  then show "\<exists>a response. ctx_auth ctx = Some a \<and> fetch e (fileUrl d) = Some response \<and> ok response
         \<and> hot s' = hot s
         \<and> map_of (cold s') (auth_uid a @ ''/'' @ fileName d)
             = Some \<lparr>content = body response,
                     contentType = or_default (content_type_header response)
                                     ''application/octet-stream''\<rparr>
         \<and> gcpFiles s' (auth_uid a, fileName d) = Some (coldUrl (auth_uid a @ ''/'' @ fileName d))
         \<and> calls s' = calls s @ [Fetch (fileUrl d), WriteTmp (path_join ''/tmp'' (fileName d)),
                                  BucketUpload (path_join ''/tmp'' (fileName d))
                                               (auth_uid a @ ''/'' @ fileName d),
                                  GcpFilesSet (auth_uid a) (fileName d),
                                  Unlink (path_join ''/tmp'' (fileName d))]"
    by (intro exI [of _ a] exI [of _ response]) (simp add: update_conv')
next
  assume run: "currentUser c = Some u \<and> moveToGCPBucket e c s = (c', s'')
        \<and> alerts c' = alerts c @ [''Selected files successfully moved to GCP bucket.'']"
  obtain b s1 where lp: "move_loop e u (files c) (selectedFiles c) s = (b, s1)" by force
  obtain c2 s2 where ff: "fetchFiles e
        (c\<lparr>alerts := alerts c @ [''Selected files successfully moved to GCP bucket.''],
           selectedFiles := [], refreshFiles := \<not> refreshFiles c\<rparr>) s1 = (c2, s2)" by force
  from run lp have b by (cases b) (auto simp: moveToGCPBucket_def)
  with run lp ff have s2: "s2 = s''" by (auto simp: moveToGCPBucket_def)
  note fb = fetchFiles_backend [OF ff]
  show "\<forall>f \<in> set (selectedFiles c). f \<in> name ` set (files c) \<longrightarrow>
            map_of (hot s'') (auth_uid u @ ''/'' @ f) = None
          \<and> map_of (cold s'') (auth_uid u @ ''/'' @ f) \<noteq> None
          \<and> gcpFiles s'' (auth_uid u, f) \<noteq> None"
  proof (intro ballI impI)
    fix f assume f: "f \<in> set (selectedFiles c)" and listed: "f \<in> name ` set (files c)"
    from listed have "find (\<lambda>fi. name fi = f) (files c) \<noteq> None"
      by (auto simp: find_None_iff)
    from move_loop_done [OF lp [unfolded \<open>b\<close> [THEN eqTrueI]] f this] fb s2
    show "map_of (hot s'') (auth_uid u @ ''/'' @ f) = None
          \<and> map_of (cold s'') (auth_uid u @ ''/'' @ f) \<noteq> None
          \<and> gcpFiles s'' (auth_uid u, f) \<noteq> None" by simp
  qed
next
  assume run: "currentUser c = Some u \<and> moveToGCPBucket e c s = (c', s'')"
  obtain b s1 where lp: "move_loop e u (files c) (selectedFiles c) s = (b, s1)" by force
  from move_loop_log [OF lp] obtain tr where
    tr: "calls s1 = calls s @ tr" "deletes_follow_archive (auth_uid u) (files c) tr" by blast
  have "\<exists>tr. calls s'' = calls s @ tr \<and> deletes_follow_archive (auth_uid u) (files c) tr"
  proof (cases b)
    case False
    with run lp have "s'' = s1" by (auto simp: moveToGCPBucket_def)
    with tr show ?thesis by blast
  next
    case True
    obtain c2 s2 where ff: "fetchFiles e
        (c\<lparr>alerts := alerts c @ [''Selected files successfully moved to GCP bucket.''],
           selectedFiles := [], refreshFiles := \<not> refreshFiles c\<rparr>) s1 = (c2, s2)" by force
    with run lp True have "s2 = s''" by (auto simp: moveToGCPBucket_def)
    with fetchFiles_backend [OF ff] obtain R where
      "calls s'' = calls s1 @ R" "\<forall>k. DeleteObject k \<notin> set R" by blast
    with tr dfa_append [OF tr(2) dfa_no_delete, of R] show ?thesis
      by (intro exI [of _ "tr @ R"]) simp
  qed
  then show "\<exists>tr. calls s'' = calls s @ tr
           \<and> (\<forall>pre k post. tr = pre @ DeleteObject k # post \<longrightarrow>
                 (\<exists>pre' fi. fi \<in> set (files c) \<and> k = auth_uid u @ ''/'' @ name fi
                    \<and> pre = pre' @ [Fetch (url fi), WriteTmp (path_join ''/tmp'' (name fi)),
                                     BucketUpload (path_join ''/tmp'' (name fi))
                                                  (auth_uid u @ ''/'' @ name fi),
                                     GcpFilesSet (auth_uid u) (name fi),
                                     Unlink (path_join ''/tmp'' (name fi))]))"
    unfolding deletes_follow_archive_def archive_calls_def .
next
  assume run: "currentUser c = Some u \<and> moveToGCPBucket e c s = (c', s'')
        \<and> map_of (hot s) k \<noteq> None \<and> map_of (hot s'') k = None"
  obtain b s1 where lp: "move_loop e u (files c) (selectedFiles c) s = (b, s1)" by force
  have same: "hot s'' = hot s1 \<and> cold s'' = cold s1 \<and> gcpFiles s'' = gcpFiles s1"
  proof (cases b)
    case False
    with run lp show ?thesis by (auto simp: moveToGCPBucket_def)
  next
    case True
    obtain c2 s2 where ff: "fetchFiles e
        (c\<lparr>alerts := alerts c @ [''Selected files successfully moved to GCP bucket.''],
           selectedFiles := [], refreshFiles := \<not> refreshFiles c\<rparr>) s1 = (c2, s2)" by force
    with run lp True have "s2 = s''" by (auto simp: moveToGCPBucket_def)
    with fetchFiles_backend [OF ff] show ?thesis by simp
  qed
  with run have "map_of (hot s) k \<noteq> None" "map_of (hot s1) k = None" by simp_all
  from move_loop_safe [OF lp this] same
  show "\<exists>f \<in> set (selectedFiles c). k = auth_uid u @ ''/'' @ f
           \<and> map_of (cold s'') k \<noteq> None \<and> gcpFiles s'' (auth_uid u, f) \<noteq> None"
    by simp
next
  assume h: "currentUser c = Some u \<and> selectedFiles c = sel1 @ f # sel2
        \<and> find (\<lambda>x. name x = f) (files c) = Some fi
        \<and> move_loop e u (files c) sel1 s = (True, s1)
        \<and> uploadToGCPBucket e \<lparr>fileName = name fi, fileUrl = url fi\<rparr> \<lparr>ctx_auth = Some u\<rparr> s1
            = (Inl err, s2)"
  then have "move_loop e u (files c) (selectedFiles c) s = (False, s2)"
    by (simp add: move_loop_append)
  with h show "moveToGCPBucket e c s =
          (c\<lparr>error := Some ''Failed to move files to the GCP bucket. Please try again.'',
             isMoving := False\<rparr>, s2)"
    by (simp add: moveToGCPBucket_def)
next
  assume h: "currentUser c = Some u \<and> selectedFiles c = sel1 @ f # sel2
        \<and> find (\<lambda>x. name x = f) (files c) = Some fi
        \<and> move_loop e u (files c) sel1 s = (True, s1)
        \<and> uploadToGCPBucket e \<lparr>fileName = name fi, fileUrl = url fi\<rparr> \<lparr>ctx_auth = Some u\<rparr> s1
            = (Inl err, s2)"
  then show "hot s2 = hot s1" by (auto dest: upload_hot)
qed

theorem archive_completed_by_client_witness:
  "fst (uploadToGCPBucket quiet_env \<lparr>fileName = ''a.txt'', fileUrl = ''https://hot.test/u1/a.txt''\<rparr>
          \<lparr>ctx_auth = Some plain_caller\<rparr> sample_backend)
     = Inr (Message ''File uploaded successfully.'')
   \<and> hot (snd (uploadToGCPBucket quiet_env
                  \<lparr>fileName = ''a.txt'', fileUrl = ''https://hot.test/u1/a.txt''\<rparr>
                  \<lparr>ctx_auth = Some plain_caller\<rparr> sample_backend)) = hot sample_backend
   \<and> alerts (fst (moveToGCPBucket quiet_env (alice_client [item_a] [''a.txt'']) sample_backend))
     = [''Selected files successfully moved to GCP bucket.'']
   \<and> map_of (hot (snd (moveToGCPBucket quiet_env (alice_client [item_a] [''a.txt'']) sample_backend)))
        ''u1/a.txt'' = None
   \<and> map_of (cold (snd (moveToGCPBucket quiet_env (alice_client [item_a] [''a.txt'']) sample_backend)))
        ''u1/a.txt'' \<noteq> None
   \<and> gcpFiles (snd (moveToGCPBucket quiet_env (alice_client [item_a] [''a.txt'']) sample_backend))
        (''u1'', ''a.txt'') \<noteq> None
   \<and> calls (snd (moveToGCPBucket quiet_env (alice_client [item_a] [''a.txt'']) sample_backend))
     = [Fetch ''https://hot.test/u1/a.txt'', WriteTmp ''/tmp/a.txt'',
        BucketUpload ''/tmp/a.txt'' ''u1/a.txt'', GcpFilesSet ''u1'' ''a.txt'', Unlink ''/tmp/a.txt'',
        DeleteObject ''u1/a.txt'', ListAll ''u1'']
   \<and> error (fst (moveToGCPBucket quiet_env (alice_client [item_z, item_a] [''z.txt'', ''a.txt''])
                    sample_backend))
     = Some ''Failed to move files to the GCP bucket. Please try again.''
   \<and> hot (snd (moveToGCPBucket quiet_env (alice_client [item_z, item_a] [''z.txt'', ''a.txt''])
                  sample_backend)) = hot sample_backend"
proof -
  let ?d = "\<lparr>fileName = ''a.txt'', fileUrl = ''https://hot.test/u1/a.txt''\<rparr>"
  let ?c = "alice_client [item_a] [''a.txt'']"
  let ?cz = "alice_client [item_z, item_a] [''z.txt'', ''a.txt'']"
  let ?dz = "\<lparr>fileName = name item_z, fileUrl = url item_z\<rparr>"
  obtain s' where up: "uploadToGCPBucket quiet_env ?d \<lparr>ctx_auth = Some plain_caller\<rparr> sample_backend
      = (Inr (Message ''File uploaded successfully.''), s')"
    by (simp add: uploadToGCPBucket_def upload_try_def Let_def prim_defs sample_defs)
  obtain c' s'' where mv: "moveToGCPBucket quiet_env ?c sample_backend = (c', s'')" by force
  have al: "alerts (fst (moveToGCPBucket quiet_env ?c sample_backend))
            = alerts ?c @ [''Selected files successfully moved to GCP bucket.'']"
    and lg: "calls (snd (moveToGCPBucket quiet_env ?c sample_backend))
     = [Fetch ''https://hot.test/u1/a.txt'', WriteTmp ''/tmp/a.txt'',
        BucketUpload ''/tmp/a.txt'' ''u1/a.txt'', GcpFilesSet ''u1'' ''a.txt'', Unlink ''/tmp/a.txt'',
        DeleteObject ''u1/a.txt'', ListAll ''u1'']"
    by (simp_all add: moveToGCPBucket_def fetchFiles_def listAll_def uploadToGCPBucket_def
        upload_try_def path_join_def Let_def item_a_def prim_defs sample_defs)
  have cu: "currentUser ?c = Some plain_caller" "selectedFiles ?c = [''a.txt'']"
    "files ?c = [item_a]" "alerts ?c = []" "auth_uid plain_caller = ''u1''" "name item_a = ''a.txt''"
    by (simp_all add: alice_client_def plain_caller_def item_a_def)
  have cz: "currentUser ?cz = Some plain_caller" "selectedFiles ?cz = [] @ ''z.txt'' # [''a.txt'']"
    "find (\<lambda>x. name x = ''z.txt'') (files ?cz) = Some item_z"
    "move_loop quiet_env plain_caller (files ?cz) [] sample_backend = (True, sample_backend)"
    by (simp_all add: alice_client_def item_z_def)
  obtain err sz where fz: "uploadToGCPBucket quiet_env ?dz \<lparr>ctx_auth = Some plain_caller\<rparr> sample_backend
      = (Inl err, sz)"
    by (simp add: uploadToGCPBucket_def upload_try_def fetch_url_def and_then_def attempt_def
        quiet_env_def item_z_def)
  from mv al have al': "alerts c' = alerts ?c @ [''Selected files successfully moved to GCP bucket.'']"
    by simp
  note ok_inst = archive_completed_by_client [where e = quiet_env and d = ?d
      and ctx = "\<lparr>ctx_auth = Some plain_caller\<rparr>" and s = sample_backend
      and r = "Message ''File uploaded successfully.''" and s' = s' and c = ?c and u = plain_caller
      and c' = c' and s'' = s'']
  from ok_inst [THEN conjunct1, rule_format, OF up]
  have h1: "hot s' = hot sample_backend" by blast
  have "currentUser ?c = Some plain_caller \<and> moveToGCPBucket quiet_env ?c sample_backend = (c', s'')
        \<and> alerts c' = alerts ?c @ [''Selected files successfully moved to GCP bucket.'']"
    using cu mv al' by simp
  from ok_inst [THEN conjunct2, THEN conjunct1, rule_format, OF this, of "''a.txt''"]
  have h2: "map_of (hot s'') ''u1/a.txt'' = None \<and> map_of (cold s'') ''u1/a.txt'' \<noteq> None
       \<and> gcpFiles s'' (''u1'', ''a.txt'') \<noteq> None"
    by (simp add: cu)
  note ok_run = h1 h2
  note bad_inst = archive_completed_by_client [where e = quiet_env and c = ?cz and u = plain_caller
      and s = sample_backend and ?sel1.0 = "[]" and f = "''z.txt''" and ?sel2.0 = "[''a.txt'']"
      and fi = item_z and ?s1.0 = sample_backend and err = err and ?s2.0 = sz]
  have "currentUser ?cz = Some plain_caller \<and> selectedFiles ?cz = [] @ ''z.txt'' # [''a.txt'']
        \<and> find (\<lambda>x. name x = ''z.txt'') (files ?cz) = Some item_z
        \<and> move_loop quiet_env plain_caller (files ?cz) [] sample_backend = (True, sample_backend)
        \<and> uploadToGCPBucket quiet_env ?dz \<lparr>ctx_auth = Some plain_caller\<rparr> sample_backend
            = (Inl err, sz)"
    using cz fz by simp
  from bad_inst [THEN conjunct2, THEN conjunct2, THEN conjunct2, THEN conjunct2, rule_format, OF this]
  have bad_run: "moveToGCPBucket quiet_env ?cz sample_backend =
          (?cz\<lparr>error := Some ''Failed to move files to the GCP bucket. Please try again.'',
              isMoving := False\<rparr>, sz)"
    "hot sz = hot sample_backend"
    by simp_all
  from up mv al lg ok_run bad_run show ?thesis
    by (simp add: cu)
qed

subsection \<open>Batch retrieve in the client\<close>

text \<open>
  One \<open>downloadFromGCPBucket\<close> call, whatever fails: it succeeds exactly when the name is not
  empty, the caller's Cold object exists and none of its four backend calls fails; it
  touches the Cold tier at the caller's key for that name only; and its first backend call
  is the download of that key.
\<close>

lemma download_outcome:
  assumes "downloadFromGCPBucket e \<lparr>fileName = f\<rparr> \<lparr>ctx_auth = Some u\<rparr> s = (r, s')"
  shows "(\<exists>m. r = Inr m) \<longleftrightarrow>
           f \<noteq> [] \<and> map_of (cold s) (auth_uid u @ ''/'' @ f) \<noteq> None
           \<and> \<not> fails e (FileDownload (auth_uid u @ ''/'' @ f))
           \<and> \<not> fails e (FileSave (auth_uid u @ ''/'' @ f))
           \<and> \<not> fails e (FileDelete (auth_uid u @ ''/'' @ f))
           \<and> \<not> fails e (GcpFilesDelete (auth_uid u) f)"
    and "k \<noteq> auth_uid u @ ''/'' @ f \<Longrightarrow> map_of (cold s') k = map_of (cold s) k"
    and "\<exists>tr. calls s' = calls s @ tr
            \<and> [c \<leftarrow> tr. \<exists>k. c = FileDownload k]
                = (if f = [] then [] else [FileDownload (auth_uid u @ ''/'' @ f)])"
  using assms
  by (auto simp: downloadFromGCPBucket_def download_try_def and_then_def fileDownload_def fileSave_def
      fileDelete_def gcpFilesDelete_def attempt_def delete_conv'
      split: if_splits option.splits)

text \<open>Every name handed to the loop ends in exactly one of the two lists.\<close>

lemma receive_loop_all:
  assumes "receive_loop e u fs oks bads s = (oks', bads', s')"
  shows "mset oks' + mset bads' = mset oks + mset bads + mset fs"
  using assms
proof (induction fs arbitrary: oks bads s)
  case Nil
  then show ?case by simp
next
  case (Cons f fs)
  obtain r s1 where d: "downloadFromGCPBucket e \<lparr>fileName = f\<rparr> \<lparr>ctx_auth = u\<rparr> s = (r, s1)"
    by force
  show ?case
  proof (cases r)
    case (Inl err)
    with Cons.prems d have "receive_loop e u fs oks (bads @ [f]) s1 = (oks', bads', s')" by simp
    from Cons.IH [OF this] show ?thesis by simp
  next
    case (Inr m)
    with Cons.prems d have "receive_loop e u fs (oks @ [f]) bads s1 = (oks', bads', s')" by simp
    from Cons.IH [OF this] show ?thesis by simp
  qed
qed

text \<open>
  Whatever fails, the loop attempts the download of every non-empty name, in the order of
  the selection.
\<close>

lemma receive_loop_log:
  assumes "receive_loop e (Some u) fs oks bads s = (oks', bads', s')"
  shows "\<exists>tr. calls s' = calls s @ tr
           \<and> [c \<leftarrow> tr. \<exists>k. c = FileDownload k]
               = map (\<lambda>f. FileDownload (auth_uid u @ ''/'' @ f)) [f \<leftarrow> fs. f \<noteq> []]"
  using assms
proof (induction fs arbitrary: oks bads s)
  case Nil
  then show ?case by simp
next
  case (Cons f fs)
  obtain r s1 where d: "downloadFromGCPBucket e \<lparr>fileName = f\<rparr> \<lparr>ctx_auth = Some u\<rparr> s = (r, s1)"
    by force
  from download_outcome(3) [OF d] obtain t1 where
    t1: "calls s1 = calls s @ t1"
        "[c \<leftarrow> t1. \<exists>k. c = FileDownload k] = (if f = [] then [] else [FileDownload (auth_uid u @ ''/'' @ f)])"
    by blast
  from Cons.prems d obtain oks1 bads1 where
    rest: "receive_loop e (Some u) fs oks1 bads1 s1 = (oks', bads', s')"
    by (cases r) auto
  from Cons.IH [OF rest] obtain t2 where
    t2: "calls s' = calls s1 @ t2"
        "[c \<leftarrow> t2. \<exists>k. c = FileDownload k]
           = map (\<lambda>f. FileDownload (auth_uid u @ ''/'' @ f)) [f \<leftarrow> fs. f \<noteq> []]"
    by blast
  from t1 t2 show ?case
    by (intro exI [of _ "t1 @ t2"]) simp
qed

text \<open>
  With no name selected twice, a name succeeds exactly when it is non-empty, the caller's
  Cold object of that name exists when the batch starts and none of the four backend calls
  for it fails: a failure neither stops the loop nor changes what happens to the names
  after it.
\<close>

lemma receive_loop_outcome:
  assumes "distinct fs"
  shows "\<exists>s'. receive_loop e (Some u) fs oks bads s =
           (oks @ [f \<leftarrow> fs. f \<noteq> [] \<and> map_of (cold s) (auth_uid u @ ''/'' @ f) \<noteq> None
                           \<and> \<not> fails e (FileDownload (auth_uid u @ ''/'' @ f))
                           \<and> \<not> fails e (FileSave (auth_uid u @ ''/'' @ f))
                           \<and> \<not> fails e (FileDelete (auth_uid u @ ''/'' @ f))
                           \<and> \<not> fails e (GcpFilesDelete (auth_uid u) f)],
            bads @ [f \<leftarrow> fs. \<not> (f \<noteq> [] \<and> map_of (cold s) (auth_uid u @ ''/'' @ f) \<noteq> None
                           \<and> \<not> fails e (FileDownload (auth_uid u @ ''/'' @ f))
                           \<and> \<not> fails e (FileSave (auth_uid u @ ''/'' @ f))
                           \<and> \<not> fails e (FileDelete (auth_uid u @ ''/'' @ f))
                           \<and> \<not> fails e (GcpFilesDelete (auth_uid u) f))],
            s')"
  using assms
proof (induction fs arbitrary: oks bads s)
  case Nil
  then show ?case by simp
next
  case (Cons f fs)
  let ?P = "\<lambda>s f. f \<noteq> [] \<and> map_of (cold s) (auth_uid u @ ''/'' @ f) \<noteq> None
                           \<and> \<not> fails e (FileDownload (auth_uid u @ ''/'' @ f))
                           \<and> \<not> fails e (FileSave (auth_uid u @ ''/'' @ f))
                           \<and> \<not> fails e (FileDelete (auth_uid u @ ''/'' @ f))
                           \<and> \<not> fails e (GcpFilesDelete (auth_uid u) f)"
  from Cons.prems have nf: "f \<notin> set fs" and dist: "distinct fs" by simp_all
  obtain r s1 where d: "downloadFromGCPBucket e \<lparr>fileName = f\<rparr> \<lparr>ctx_auth = Some u\<rparr> s = (r, s1)"
    by force
  from nf have same: "\<And>g. g \<in> set fs \<Longrightarrow>
      map_of (cold s1) (auth_uid u @ ''/'' @ g) = map_of (cold s) (auth_uid u @ ''/'' @ g)"
    by (intro download_outcome(2) [OF d]) auto
  have f1: "filter (?P s1) fs = filter (?P s) fs"
    using same by (intro filter_cong refl) simp
  have f2: "filter (\<lambda>g. \<not> ?P s1 g) fs = filter (\<lambda>g. \<not> ?P s g) fs"
    using same by (intro filter_cong refl) simp
  show ?case
  proof (cases r)
    case (Inr m)
    with download_outcome(1) [OF d] have p: "?P s f" by blast
    from Cons.IH [OF dist, of "oks @ [f]" bads s1] f1 f2
    have "\<exists>s'. receive_loop e (Some u) fs (oks @ [f]) bads s1 =
           ((oks @ [f]) @ filter (?P s) fs, bads @ filter (\<lambda>g. \<not> ?P s g) fs, s')"
      by simp
    with d Inr p show ?thesis by auto
  next
    case (Inl err)
    with download_outcome(1) [OF d] have p: "\<not> ?P s f" by blast
    from Cons.IH [OF dist, of oks "bads @ [f]" s1] f1 f2
    have "\<exists>s'. receive_loop e (Some u) fs oks (bads @ [f]) s1 =
           (oks @ filter (?P s) fs, (bads @ [f]) @ filter (\<lambda>g. \<not> ?P s g) fs, s')"
      by simp
    with d Inl p show ?thesis by auto
  qed
qed

text \<open>The refresh of the Cold listing reads only.\<close>

lemma fetchGCPFiles_effect:
  assumes "currentUser c = Some u"
  shows "fetchGCPFiles e c s =
           (if fails e (GetFiles (auth_uid u @ ''/''))
            then c\<lparr>error := Some ''Failed to fetch files from GCP bucket. Please try again.'',
                   isLoading := False\<rparr>
            else c\<lparr>error := None,
                   files := map (\<lambda>k. \<lparr>name = replace_first (auth_uid u @ ''/'') [] k, url = coldUrl k\<rparr>)
                                [k \<leftarrow> map fst (cold s). prefix (auth_uid u @ ''/'') k],
                   isLoading := False\<rparr>,
            record_call (GetFiles (auth_uid u @ ''/'')) s)"
  using assms
  by (simp add: fetchGCPFiles_def listGCPFiles_def getFiles_def attempt_def response_files_def Let_def)

text \<open>
  C6, as stated, fails in its second half: what \<open>handleReceiveFiles\<close> shows is an alert
  with the two counts. Alice retrieves \<^verbatim>\<open>a.txt, missing.txt, b.txt\<close>, or instead
  \<^verbatim>\<open>a.txt, b.txt, gone.txt\<close>: the page ends in the same state with the same alert, which
  names no file. When nothing succeeds, no alert is shown at all; the batch leaves the error
  banner empty and only the listing is refreshed.
\<close>

theorem receive_alert_names_no_file_counterexample:
  "fst (handleReceiveFiles quiet_env (alice_client [] [''a.txt'', ''missing.txt'', ''b.txt'']) batch_backend)
     = \<lparr>currentUser = Some plain_caller, refreshFiles = True, files = [], selectedFiles = [],
        error = None, isLoading = False, isReceiving = False, isMoving = False,
        alerts = [''Successfully received 2 files. 1 files failed to download.'']\<rparr>
   \<and> fst (handleReceiveFiles quiet_env (alice_client [] [''a.txt'', ''b.txt'', ''gone.txt'']) batch_backend)
     = \<lparr>currentUser = Some plain_caller, refreshFiles = True, files = [], selectedFiles = [],
        error = None, isLoading = False, isReceiving = False, isMoving = False,
        alerts = [''Successfully received 2 files. 1 files failed to download.'']\<rparr>
   \<and> fst (handleReceiveFiles quiet_env (alice_client [] [''missing.txt'']) batch_backend)
     = \<lparr>currentUser = Some plain_caller, refreshFiles = True,
        files = [\<lparr>name = ''a.txt'',
                  url = ''https://storage.googleapis.com/double-edge-coldline-bucket-030340395/u1/a.txt''\<rparr>,
                 \<lparr>name = ''b.txt'',
                  url = ''https://storage.googleapis.com/double-edge-coldline-bucket-030340395/u1/b.txt''\<rparr>],
        selectedFiles = [], error = None, isLoading = False, isReceiving = False, isMoving = False,
        alerts = []\<rparr>"
  by (simp add: handleReceiveFiles_def fetchGCPFiles_def listGCPFiles_def response_files_def
      receive_alert_def downloadFromGCPBucket_def download_try_def coldUrl_def bucketName_def
      digit_char_def Let_def prim_defs sample_defs)

text \<open>
  C6 (amended): \<open>handleReceiveFiles\<close> makes one \<open>downloadFromGCPBucket\<close> call per selected
  name, in order, and a failure on one name does not stop the loop: whatever fails, the
  download of every non-empty selected name is attempted, and every selected name ends in
  exactly one of the handler's two lists \<open>successfulDownloads\<close> and \<open>failedDownloads\<close>.
  With no name selected twice, the succeeded names are exactly the non-empty names whose
  Cold object exists when the batch starts and whose four backend calls do not fail, the
  failed ones the rest. What the handler shows is not the names: it is one alert with the
  two counts, and only when at least one file succeeded; it then clears the selection,
  notifies the page and refreshes the Cold listing.
\<close>

theorem batch_receive:
  assumes "currentUser c = Some u"
    and "receive_loop e (currentUser c) (selectedFiles c) [] [] s = (succeeded, failed, s')"
  shows "mset succeeded + mset failed = mset (selectedFiles c)
       \<and> (\<exists>tr. calls s' = calls s @ tr
             \<and> [x \<leftarrow> tr. \<exists>k. x = FileDownload k]
                 = map (\<lambda>f. FileDownload (auth_uid u @ ''/'' @ f)) [f \<leftarrow> selectedFiles c. f \<noteq> []])
       \<and> (distinct (selectedFiles c) \<longrightarrow>
            succeeded = [f \<leftarrow> selectedFiles c.
                           f \<noteq> [] \<and> map_of (cold s) (auth_uid u @ ''/'' @ f) \<noteq> None
                           \<and> \<not> fails e (FileDownload (auth_uid u @ ''/'' @ f))
                           \<and> \<not> fails e (FileSave (auth_uid u @ ''/'' @ f))
                           \<and> \<not> fails e (FileDelete (auth_uid u @ ''/'' @ f))
                           \<and> \<not> fails e (GcpFilesDelete (auth_uid u) f)]
          \<and> failed = [f \<leftarrow> selectedFiles c.
                        \<not> (f \<noteq> [] \<and> map_of (cold s) (auth_uid u @ ''/'' @ f) \<noteq> None
                           \<and> \<not> fails e (FileDownload (auth_uid u @ ''/'' @ f))
                           \<and> \<not> fails e (FileSave (auth_uid u @ ''/'' @ f))
                           \<and> \<not> fails e (FileDelete (auth_uid u @ ''/'' @ f))
                           \<and> \<not> fails e (GcpFilesDelete (auth_uid u) f))])
       \<and> handleReceiveFiles e c s =
           (c\<lparr>error := (if fails e (GetFiles (auth_uid u @ ''/''))
                         then Some ''Failed to fetch files from GCP bucket. Please try again.''
                         else None),
              alerts := alerts c @
                (if succeeded = [] then []
                 else [''Successfully received '' @ show_nat (length succeeded) @ '' files. '' @
                       (if failed = [] then []
                        else show_nat (length failed) @ '' files failed to download.'')]),
              selectedFiles := [],
              refreshFiles := \<not> refreshFiles c,
              files := (if fails e (GetFiles (auth_uid u @ ''/'')) then files c
                        else map (\<lambda>k. \<lparr>name = replace_first (auth_uid u @ ''/'') [] k,
                                          url = coldUrl k\<rparr>)
                                 [k \<leftarrow> map fst (cold s'). prefix (auth_uid u @ ''/'') k]),
              isLoading := False,
              isReceiving := False\<rparr>,
            record_call (GetFiles (auth_uid u @ ''/'')) s')"
proof (intro conjI impI)
  from receive_loop_all [OF assms(2)]
  show "mset succeeded + mset failed = mset (selectedFiles c)" by simp
next
  from receive_loop_log [of e u "selectedFiles c" "[]" "[]" s succeeded failed s'] assms
  show "\<exists>tr. calls s' = calls s @ tr
             \<and> [x \<leftarrow> tr. \<exists>k. x = FileDownload k]
                 = map (\<lambda>f. FileDownload (auth_uid u @ ''/'' @ f)) [f \<leftarrow> selectedFiles c. f \<noteq> []]"
    by simp
next
  assume "distinct (selectedFiles c)"
  from receive_loop_outcome [OF this, of e u "[]" "[]" s] assms
  show "succeeded = [f \<leftarrow> selectedFiles c.
                           f \<noteq> [] \<and> map_of (cold s) (auth_uid u @ ''/'' @ f) \<noteq> None
                           \<and> \<not> fails e (FileDownload (auth_uid u @ ''/'' @ f))
                           \<and> \<not> fails e (FileSave (auth_uid u @ ''/'' @ f))
                           \<and> \<not> fails e (FileDelete (auth_uid u @ ''/'' @ f))
                           \<and> \<not> fails e (GcpFilesDelete (auth_uid u) f)]"
    and "failed = [f \<leftarrow> selectedFiles c.
                        \<not> (f \<noteq> [] \<and> map_of (cold s) (auth_uid u @ ''/'' @ f) \<noteq> None
                           \<and> \<not> fails e (FileDownload (auth_uid u @ ''/'' @ f))
                           \<and> \<not> fails e (FileSave (auth_uid u @ ''/'' @ f))
                           \<and> \<not> fails e (FileDelete (auth_uid u @ ''/'' @ f))
                           \<and> \<not> fails e (GcpFilesDelete (auth_uid u) f))]"
    by auto
next
  from assms show "handleReceiveFiles e c s =
           (c\<lparr>error := (if fails e (GetFiles (auth_uid u @ ''/''))
                         then Some ''Failed to fetch files from GCP bucket. Please try again.''
                         else None),
              alerts := alerts c @
                (if succeeded = [] then []
                 else [''Successfully received '' @ show_nat (length succeeded) @ '' files. '' @
                       (if failed = [] then []
                        else show_nat (length failed) @ '' files failed to download.'')]),
              selectedFiles := [],
              refreshFiles := \<not> refreshFiles c,
              files := (if fails e (GetFiles (auth_uid u @ ''/'')) then files c
                        else map (\<lambda>k. \<lparr>name = replace_first (auth_uid u @ ''/'') [] k,
                                          url = coldUrl k\<rparr>)
                                 [k \<leftarrow> map fst (cold s'). prefix (auth_uid u @ ''/'') k]),
              isLoading := False,
              isReceiving := False\<rparr>,
            record_call (GetFiles (auth_uid u @ ''/'')) s')"
    by (simp add: handleReceiveFiles_def fetchGCPFiles_effect [where u = u] receive_alert_def
          del: show_nat.simps replace_first.simps)
qed

theorem batch_receive_witness:
  "fst (receive_loop quiet_env (Some plain_caller) [''a.txt'', ''missing.txt'', ''b.txt''] [] []
          batch_backend) = [''a.txt'', ''b.txt'']
   \<and> fst (snd (receive_loop quiet_env (Some plain_caller) [''a.txt'', ''missing.txt'', ''b.txt''] [] []
                  batch_backend)) = [''missing.txt'']
   \<and> map fst (hot (snd (snd (receive_loop quiet_env (Some plain_caller)
                                 [''a.txt'', ''missing.txt'', ''b.txt''] [] [] batch_backend))))
       = [''u1/a.txt'', ''u1/b.txt'']
   \<and> alerts (fst (handleReceiveFiles quiet_env
                     (alice_client [] [''a.txt'', ''missing.txt'', ''b.txt'']) batch_backend))
       = [''Successfully received 2 files. 1 files failed to download.'']
   \<and> fst (receive_loop flaky_env (Some plain_caller) [''a.txt'', ''missing.txt'', ''b.txt''] [] []
            batch_backend) = [''b.txt'']
   \<and> fst (snd (receive_loop flaky_env (Some plain_caller) [''a.txt'', ''missing.txt'', ''b.txt''] [] []
                  batch_backend)) = [''a.txt'', ''missing.txt'']"
proof -
  let ?c = "alice_client [] [''a.txt'', ''missing.txt'', ''b.txt'']"
  obtain succeeded failed s' where
    rl: "receive_loop quiet_env (currentUser ?c) (selectedFiles ?c) [] [] batch_backend
           = (succeeded, failed, s')"
    by (metis prod_cases3)
  obtain succeeded2 failed2 s2 where
    rl2: "receive_loop flaky_env (currentUser ?c) (selectedFiles ?c) [] [] batch_backend
           = (succeeded2, failed2, s2)"
    by (metis prod_cases3)
  have cu: "currentUser ?c = Some plain_caller" by (simp add: alice_client_def)
  have dist: "distinct (selectedFiles ?c)" by (simp add: alice_client_def)
  from batch_receive [OF cu rl] dist
  have "succeeded = [''a.txt'', ''b.txt'']" and "failed = [''missing.txt'']"
    and "alerts (fst (handleReceiveFiles quiet_env ?c batch_backend)) =
           alerts ?c @
                (if succeeded = [] then []
                 else [''Successfully received '' @ show_nat (length succeeded) @ '' files. '' @
                       (if failed = [] then []
                        else show_nat (length failed) @ '' files failed to download.'')])"
    by (simp_all add: alice_client_def plain_caller_def batch_backend_def sample_backend_def
        quiet_env_def del: show_nat.simps replace_first.simps)
  moreover from batch_receive [OF cu rl2] dist
  have "succeeded2 = [''b.txt'']" and "failed2 = [''a.txt'', ''missing.txt'']"
    by (simp_all add: alice_client_def plain_caller_def batch_backend_def sample_backend_def
        flaky_env_def quiet_env_def del: show_nat.simps replace_first.simps)
  moreover have "map fst (hot (snd (snd (receive_loop quiet_env (Some plain_caller)
                                 [''a.txt'', ''missing.txt'', ''b.txt''] [] [] batch_backend))))
       = [''u1/a.txt'', ''u1/b.txt'']"
    by (simp add: downloadFromGCPBucket_def download_try_def prim_defs sample_defs)
  ultimately show ?thesis
    using rl rl2 by (simp add: alice_client_def digit_char_def)
qed

end
